theory Spec2Isabelle
  imports Main "HOL-Library.Monad_Syntax"
begin

section \<open>srcFacts: the embedded streaming XML scanner\<close>

text \<open>
  This theory embeds \<^verbatim>\<open>srcFacts.cpp\<close>: the byte source on file descriptor 0,
  \<^verbatim>\<open>refillBuffer\<close>, and the scan loop of \<^verbatim>\<open>main\<close> with its eleven construct
  handlers, the counters and the final report.

  Conventions of the embedding.
  \<^item> The buffer \<^verbatim>\<open>std::string buffer(BUFFER_SIZE, ' ')\<close> is a store from index to byte
    together with its size; the iterators \<^verbatim>\<open>cursor\<close>, \<^verbatim>\<open>cursorEnd\<close> and every local
    iterator are indices into it.
  \<^item> Undefined behaviour of the C++ program is the value \<open>None\<close> of a handler:
    dereferencing an iterator at or after \<^verbatim>\<open>buffer.cend()\<close>, handing an algorithm a
    range whose first iterator lies after its last, and indexing the 128-bit name table
    with a byte of 128 or more. Taking an address (\<^verbatim>\<open>std::addressof(*it)\<close>) reads nothing
    and is not a dereference of the model.
  \<^item> A parser error (a message on stderr and \<^verbatim>\<open>return 1\<close>) is the step result
    \<open>Exit1\<close> carrying the message without its final newline.
  \<^item> The counters are C++ \<^verbatim>\<open>int\<close> and \<^verbatim>\<open>long\<close>; they are unbounded integers
    here, which is what the program computes for inputs of fewer than \<open>2^31\<close> bytes.
  \<^item> \<^verbatim>\<open>isspace\<close> is that of the "C" locale (the program never calls
    \<^verbatim>\<open>setlocale\<close>), false on bytes of 128 or more.
  \<^item> The trace macros expand to nothing (\<^verbatim>\<open>TRACE\<close> is not defined), the timing lines
    and the column widths of the table are not modelled.
\<close>

subsection \<open>The byte source\<close>

text \<open>
  What successive calls of \<^verbatim>\<open>read(0, ...)\<close> will meet: a block of bytes that is
  available, an interrupted system call, or an input error. The empty list is end of
  file. A call that asks for fewer bytes than the block holds gets that many and leaves
  the rest for the next call.
\<close>

datatype event = Data string | Eintr | Eio

datatype rd = Bytes string | Interrupted | Failed

fun READ :: "nat \<Rightarrow> event list \<Rightarrow> rd \<times> event list" where
  "READ count [] = (Bytes [], [])"
| "READ count (Eintr # es) = (Interrupted, es)"
| "READ count (Eio # es) = (Failed, es)"
| "READ count (Data bs # es) =
     (if length bs \<le> count then (Bytes bs, es)
      else (Bytes (take count bs), Data (drop count bs) # es))"

text \<open>The loop of lines 82-84: the call is repeated while it is interrupted.\<close>

fun READ_retry :: "nat \<Rightarrow> event list \<Rightarrow> rd \<times> event list" where
  "READ_retry count (Eintr # es) = READ_retry count es"
| "READ_retry count es = READ count es"

subsection \<open>The state of \<^verbatim>\<open>main\<close>\<close>

definition BUFFER_SIZE :: nat where
  "BUFFER_SIZE = 16 * 16 * 4096"

record state =
  url :: string
  textsize :: int
  loc :: int
  exprCount :: int
  functionCount :: int
  classCount :: int
  unitCount :: int
  declCount :: int
  commentCount :: int
  depth :: int
  totalBytes :: int
  inTag :: bool
  inXMLComment :: bool
  inCDATA :: bool
  inTagQName :: string
  inTagPrefix :: string
  inTagLocalName :: string
  isArchive :: bool
  buffer :: "nat \<Rightarrow> char"
  bufsize :: nat
  cursor :: nat
  cursorEnd :: nat
  stdin :: "event list"

definition initial :: "nat \<Rightarrow> event list \<Rightarrow> state" where
  "initial cap evs =
     \<lparr> url = [], textsize = 0, loc = 0, exprCount = 0, functionCount = 0, classCount = 0,
       unitCount = 0, declCount = 0, commentCount = 0, depth = 0, totalBytes = 0,
       inTag = False, inXMLComment = False, inCDATA = False,
       inTagQName = [], inTagPrefix = [], inTagLocalName = [], isArchive = False,
       buffer = (\<lambda>i. CHR '' ''), bufsize = cap, cursor = cap, cursorEnd = cap,
       stdin = evs \<rparr>"

text \<open>The bytes of the buffer in \<open>[first, lim)\<close>; the window is \<open>[cursor, cursorEnd)\<close>.\<close>

definition bytes :: "state \<Rightarrow> nat \<Rightarrow> nat \<Rightarrow> string" where
  "bytes st first lim = map (buffer st) [first..<lim]"

definition window :: "state \<Rightarrow> string" where
  "window st = bytes st (cursor st) (cursorEnd st)"

text \<open>\<^verbatim>\<open>std::distance(cursor, cursorEnd)\<close>, a signed difference.\<close>

definition distance :: "nat \<Rightarrow> nat \<Rightarrow> int" where
  "distance first lim = int lim - int first"

subsection \<open>\<^verbatim>\<open>refillBuffer\<close>\<close>

text \<open>
  The result is the returned \<^verbatim>\<open>int\<close> and the state after the call, or \<open>None\<close> when
  \<open>[cursor, cursorEnd)\<close> is not a range of the buffer (\<^verbatim>\<open>std::copy\<close> is undefined
  then). The copy moves the unprocessed bytes to the front; the read asks for the room
  that is left, \<^verbatim>\<open>std::distance(cursorEnd, buffer.cend())\<close>. Both \<open>Interrupted\<close> and
  \<open>Failed\<close> are the value \<open>-1\<close> of \<^verbatim>\<open>readBytes\<close> (the retry loop never leaves with
  the former).
\<close>

definition refillBuffer :: "state \<Rightarrow> (int \<times> state) option" where
  "refillBuffer st =
     (if \<not> (cursor st \<le> cursorEnd st \<and> cursorEnd st \<le> bufsize st) then None
      else
        let unprocessed = cursorEnd st - cursor st;
            copied = (\<lambda>i. if i < unprocessed then buffer st (cursor st + i) else buffer st i);
            st1 = st\<lparr>buffer := copied, cursor := 0, cursorEnd := unprocessed\<rparr>
        in case READ_retry (bufsize st - unprocessed) (stdin st) of
             (Interrupted, es) \<Rightarrow> Some (- 1, st1\<lparr>stdin := es\<rparr>)
           | (Failed, es) \<Rightarrow> Some (- 1, st1\<lparr>stdin := es\<rparr>)
           | (Bytes bs, es) \<Rightarrow>
               if bs = [] then
                 Some (0, st1\<lparr>stdin := es, cursor := bufsize st, cursorEnd := bufsize st\<rparr>)
               else
                 Some (int (length bs),
                   st1\<lparr>stdin := es,
                       buffer := (\<lambda>i. if unprocessed \<le> i \<and> i < unprocessed + length bs
                                       then bs ! (i - unprocessed) else copied i),
                       cursorEnd := unprocessed + length bs\<rparr>))"

text \<open>
  Lines 144-149 and their four copies in the handlers: refill, stop on an input error,
  add the bytes read to \<^verbatim>\<open>totalBytes\<close>. \<open>Inl\<close> is the message of the error.
\<close>

definition refill_and_count :: "state \<Rightarrow> (string + state) option" where
  "refill_and_count st =
     (case refillBuffer st of
        None \<Rightarrow> None
      | Some (bytesRead, st') \<Rightarrow>
          if bytesRead < 0 then Some (Inl ''parser error : File input error'')
          else Some (Inr (st'\<lparr>totalBytes := totalBytes st' + bytesRead\<rparr>)))"

datatype step_result = Continue state | Break state | Exit1 string

subsection \<open>Reading the buffer\<close>

text \<open>\<^verbatim>\<open>*it\<close> and \<^verbatim>\<open>it[k]\<close>: undefined at or after \<^verbatim>\<open>buffer.cend()\<close>.\<close>

definition deref :: "state \<Rightarrow> nat \<Rightarrow> char option" where
  "deref st i = (if i < bufsize st then Some (buffer st i) else None)"

text \<open>\<^verbatim>\<open>a && b\<close> and \<^verbatim>\<open>a || b\<close>: the right operand is read only when it is needed.\<close>

definition and_also :: "bool option \<Rightarrow> bool option \<Rightarrow> bool option" where
  "and_also a b = (case a of None \<Rightarrow> None | Some x \<Rightarrow> if x then b else Some False)"

definition or_else :: "bool option \<Rightarrow> bool option \<Rightarrow> bool option" where
  "or_else a b = (case a of None \<Rightarrow> None | Some x \<Rightarrow> if x then Some True else b)"

definition is_at :: "state \<Rightarrow> nat \<Rightarrow> char \<Rightarrow> bool option" where
  "is_at st i c = map_option (\<lambda>b. b = c) (deref st i)"

text \<open>
  \<^verbatim>\<open>strncmp(p, lit, n) == 0\<close> for a literal of \<open>n\<close> bytes without NUL: the bytes are
  compared in order and the comparison stops at the first difference.
\<close>

fun strncmp_eq :: "state \<Rightarrow> nat \<Rightarrow> string \<Rightarrow> bool option" where
  "strncmp_eq st i [] = Some True"
| "strncmp_eq st i (c # cs) = and_also (is_at st i c) (strncmp_eq st (Suc i) cs)"

definition isspace :: "char \<Rightarrow> bool" where
  "isspace c \<longleftrightarrow> c = CHR '' '' \<or> c = CHR 0x09 \<or> c = CHR 0x0A \<or> c = CHR 0x0B
     \<or> c = CHR 0x0C \<or> c = CHR 0x0D"

text \<open>
  The literal of \<^verbatim>\<open>std::bitset<128> tagNameMask\<close>; its leftmost character is bit 127.
  \<open>tagNameMask c\<close> is \<^verbatim>\<open>tagNameMask[c]\<close> for a byte below 128.
\<close>

definition tagNameMask_literal :: string where
  "tagNameMask_literal =
     ''00000111111111111111111111111110100001111111111111111111111111100000001111111111011000000000000000000000000000000000000000000000''"

definition tagNameMask :: "char \<Rightarrow> bool" where
  "tagNameMask c \<longleftrightarrow>
     (of_char c :: nat) < 128 \<and> tagNameMask_literal ! (127 - of_char c) = CHR ''1''"

text \<open>
  The algorithms of \<^verbatim>\<open><algorithm>\<close> on \<open>[first, lim)\<close>: each returns the index it
  stops at, \<open>lim\<close> when nothing is found.
\<close>

definition valid_range :: "state \<Rightarrow> nat \<Rightarrow> nat \<Rightarrow> bool" where
  "valid_range st first lim \<longleftrightarrow> first \<le> lim \<and> lim \<le> bufsize st"

definition std_find_if :: "(char \<Rightarrow> bool) \<Rightarrow> state \<Rightarrow> nat \<Rightarrow> nat \<Rightarrow> nat option" where
  "std_find_if P st first lim =
     (if valid_range st first lim
      then Some (first + length (takeWhile (\<lambda>c. \<not> P c) (bytes st first lim)))
      else None)"

definition std_find :: "char \<Rightarrow> state \<Rightarrow> nat \<Rightarrow> nat \<Rightarrow> nat option" where
  "std_find v = std_find_if (\<lambda>c. c = v)"

definition std_find_if_not :: "(char \<Rightarrow> bool) \<Rightarrow> state \<Rightarrow> nat \<Rightarrow> nat \<Rightarrow> nat option" where
  "std_find_if_not P = std_find_if (\<lambda>c. \<not> P c)"

text \<open>
  \<^verbatim>\<open>std::find_if_not(first, lim, [] (char c) { return tagNameMask[c]; })\<close>: the scan
  stops at the first byte that is not a name character; the table has no entry for a
  byte of 128 or more.
\<close>

definition find_name_end :: "state \<Rightarrow> nat \<Rightarrow> nat \<Rightarrow> nat option" where
  "find_name_end st first lim =
     (case std_find_if_not tagNameMask st first lim of
        None \<Rightarrow> None
      | Some p \<Rightarrow> if p < lim \<and> 128 \<le> (of_char (buffer st p) :: nat) then None else Some p)"

fun search_off :: "string \<Rightarrow> string \<Rightarrow> nat" where
  "search_off pat [] = 0"
| "search_off pat (x # xs) =
     (if take (length pat) (x # xs) = pat then 0 else Suc (search_off pat xs))"

definition std_search :: "string \<Rightarrow> state \<Rightarrow> nat \<Rightarrow> nat \<Rightarrow> nat option" where
  "std_search pat st first lim =
     (if valid_range st first lim then Some (first + search_off pat (bytes st first lim))
      else None)"

definition std_count :: "string \<Rightarrow> char \<Rightarrow> int" where
  "std_count xs v = int (length (filter (\<lambda>c. c = v) xs))"

text \<open>\<^verbatim>\<open>qName.find(':')\<close>: \<open>None\<close> is \<^verbatim>\<open>npos\<close>.\<close>

definition sv_find :: "string \<Rightarrow> char \<Rightarrow> nat option" where
  "sv_find xs v =
     (let n = length (takeWhile (\<lambda>c. c \<noteq> v) xs) in if n < length xs then Some n else None)"

definition is_quote :: "char \<Rightarrow> bool" where
  "is_quote c \<longleftrightarrow> c = CHR 0x22 \<or> c = CHR 0x27"

subsection \<open>The classifier: the conditions of the \<^verbatim>\<open>if\<close> chain of the scan loop\<close>

datatype handler =
  Refill | Namespace | Attribute | XMLComment | CData | XMLDecl | ProcInstr
  | EndTag | StartTag | Whitespace | EntityRef | Characters

definition classify :: "state \<Rightarrow> handler option" where
  "classify st =
     (let c = cursor st in
      if distance c (cursorEnd st) < 5 then Some Refill
      else do {
        ns \<leftarrow> and_also (Some (inTag st)) (and_also (strncmp_eq st c ''xmlns'')
                (or_else (is_at st (c + 5) (CHR '':'')) (is_at st (c + 5) (CHR ''=''))));
        if ns then Some Namespace
        else if inTag st then Some Attribute
        else do {
          cm \<leftarrow> or_else (Some (inXMLComment st))
                  (and_also (is_at st (c + 1) (CHR ''!'')) (and_also (is_at st c (CHR ''<''))
                    (and_also (is_at st (c + 2) (CHR ''-'')) (is_at st (c + 3) (CHR ''-'')))));
          if cm then Some XMLComment
          else do {
            cd \<leftarrow> or_else (Some (inCDATA st))
                    (and_also (is_at st (c + 1) (CHR ''!'')) (and_also (is_at st c (CHR ''<''))
                      (and_also (is_at st (c + 2) (CHR ''['')) (strncmp_eq st (c + 3) ''CDATA[''))));
            if cd then Some CData
            else do {
              xd \<leftarrow> and_also (is_at st (c + 1) (CHR ''?'')) (and_also (is_at st c (CHR ''<''))
                      (strncmp_eq st c ''<?xml ''));
              if xd then Some XMLDecl
              else do {
                pi \<leftarrow> and_also (is_at st (c + 1) (CHR ''?'')) (is_at st c (CHR ''<''));
                if pi then Some ProcInstr
                else do {
                  et \<leftarrow> and_also (is_at st (c + 1) (CHR ''/'')) (is_at st c (CHR ''<''));
                  if et then Some EndTag
                  else do {
                    lt \<leftarrow> is_at st c (CHR ''<'');
                    if lt then Some StartTag
                    else if depth st = 0 then Some Whitespace
                    else do {
                      amp \<leftarrow> is_at st c (CHR ''&'');
                      if amp then Some EntityRef else Some Characters
                    } } } } } } } })"

subsection \<open>The handlers inside a tag header\<close>

text \<open>
  Lines 187-195, and again 247-255: the end of the tag header after a namespace or an
  attribute. With neither \<^verbatim>\<open>>\<close> nor \<^verbatim>\<open>/>\<close> at the cursor the tag header goes on.
\<close>

definition close_header :: "state \<Rightarrow> step_result option" where
  "close_header st = do {
     gt \<leftarrow> is_at st (cursor st) (CHR ''>'');
     if gt then Some (Continue (st\<lparr>cursor := cursor st + 1, inTag := False, depth := depth st + 1\<rparr>))
     else do {
       slash \<leftarrow> and_also (is_at st (cursor st) (CHR ''/'')) (is_at st (cursor st + 1) (CHR ''>''));
       if slash then Some (Continue (st\<lparr>cursor := cursor st + 2, inTag := False\<rparr>))
       else Some (Continue st)
     } }"

text \<open>
  Lines 153-195. The prefix and the URI are views that only the trace reads; they are
  left out.
\<close>

definition parse_namespace :: "state \<Rightarrow> step_result option" where
  "parse_namespace st = do {
     let c1 = cursor st + 5;
     nameEnd \<leftarrow> std_find (CHR ''='') st c1 (cursorEnd st);
     if nameEnd = cursorEnd st then Some (Exit1 ''parser error : incomplete namespace'')
     else do {
       colon \<leftarrow> is_at st c1 (CHR '':'');
       c2 \<leftarrow> std_find_if_not isspace st (Suc nameEnd) (cursorEnd st);
       if c2 = cursorEnd st then Some (Exit1 ''parser error : incomplete namespace'')
       else do {
         delimiter \<leftarrow> deref st c2;
         if \<not> is_quote delimiter then Some (Exit1 ''parser error : incomplete namespace'')
         else do {
           valueEnd \<leftarrow> std_find delimiter st (Suc c2) (cursorEnd st);
           if valueEnd = cursorEnd st then Some (Exit1 ''parser error : incomplete namespace'')
           else do {
             c3 \<leftarrow> std_find_if_not isspace st (Suc valueEnd) (cursorEnd st);
             close_header (st\<lparr>cursor := c3\<rparr>)
           } } } } }"

text \<open>
  Lines 197-255. \<open>colonPosition\<close> follows the source: the index of the first colon of
  \<open>qName\<close>, \<open>0\<close> when there is none, and one more than the index for the local name.
\<close>

definition parse_attribute :: "state \<Rightarrow> step_result option" where
  "parse_attribute st = do {
     nameEnd \<leftarrow> find_name_end st (cursor st) (cursorEnd st);
     if nameEnd = cursorEnd st then Some (Exit1 ''parser error : Empty attribute name'')
     else
       let qName = bytes st (cursor st) nameEnd in
       if sv_find qName (CHR '':'') = Some 0
       then Some (Exit1 (''parser error : Invalid attribute name '' @ qName))
       else
         let colonPosition = (case sv_find qName (CHR '':'') of None \<Rightarrow> 0 | Some k \<Rightarrow> k);
             colonPosition' = (if colonPosition \<noteq> 0 then colonPosition + 1 else colonPosition);
             localName = drop colonPosition' qName
         in do {
           sp1 \<leftarrow> deref st nameEnd;
           c1 \<leftarrow> (if isspace sp1 then std_find_if_not isspace st nameEnd (cursorEnd st)
                  else Some nameEnd);
           if c1 = cursorEnd st
           then Some (Exit1 (''parser error : attribute '' @ qName @ '' incomplete attribute''))
           else do {
             eq \<leftarrow> deref st c1;
             if eq \<noteq> CHR ''=''
             then Some (Exit1 (''parser error : attribute '' @ qName @ '' missing =''))
             else do {
               sp2 \<leftarrow> deref st (Suc c1);
               c2 \<leftarrow> (if isspace sp2 then std_find_if_not isspace st (Suc c1) (cursorEnd st)
                      else Some (Suc c1));
               delimiter \<leftarrow> deref st c2;
               if \<not> is_quote delimiter
               then Some (Exit1 (''parser error : attribute '' @ qName @ '' missing delimiter''))
               else do {
                 valueEnd \<leftarrow> std_find delimiter st (Suc c2) (cursorEnd st);
                 if valueEnd = cursorEnd st
                 then Some (Exit1 (''parser error : attribute '' @ qName @ '' missing delimiter''))
                 else do {
                   let val = bytes st (Suc c2) valueEnd;
                   let st1 = (if localName = ''url'' then st\<lparr>url := val\<rparr> else st);
                   sp3 \<leftarrow> deref st (Suc valueEnd);
                   c3 \<leftarrow> (if isspace sp3
                          then std_find_if_not isspace st (Suc (Suc valueEnd)) (cursorEnd st)
                          else Some (Suc valueEnd));
                   close_header (st1\<lparr>cursor := c3\<rparr>)
                 } } } } } }"

subsection \<open>Comments and CDATA sections\<close>

text \<open>Lines 257-272.\<close>

definition parse_comment :: "state \<Rightarrow> step_result option" where
  "parse_comment st =
     (if cursor st = cursorEnd st then Some (Exit1 ''parser error : Unterminated XML comment'')
      else do {
        let c1 = (if \<not> inXMLComment st then cursor st + 4 else cursor st);
        tagEnd \<leftarrow> std_search ''-->'' st c1 (cursorEnd st);
        let unfinished = (tagEnd = cursorEnd st);
        Some (Continue (st\<lparr>inXMLComment := unfinished,
                            cursor := (if \<not> unfinished then tagEnd + 3 else tagEnd)\<rparr>))
      })"

text \<open>
  Lines 274-292. The assignment of line 288 is overwritten by lines 289-292 and is kept
  as the first of the two updates of \<open>cursor\<close>.
\<close>

definition parse_cdata :: "state \<Rightarrow> step_result option" where
  "parse_cdata st =
     (if cursor st = cursorEnd st then Some (Exit1 ''parser error : Unterminated CDATA'')
      else do {
        let c1 = (if \<not> inCDATA st then cursor st + 9 else cursor st);
        tagEnd \<leftarrow> std_search '']]>'' st c1 (cursorEnd st);
        let unfinished = (tagEnd = cursorEnd st);
        let characters = bytes st c1 tagEnd;
        Some (Continue (st\<lparr>inCDATA := unfinished,
                            textsize := textsize st + int (length characters),
                            loc := loc st + std_count characters (CHR 0x0A),
                            cursor := tagEnd + 3,
                            cursor := (if \<not> unfinished then tagEnd + 3 else tagEnd)\<rparr>))
      })"

subsection \<open>Constructs that must lie in one window\<close>

text \<open>
  The pattern of lines 297-309, 405-417, 433-445 and 477-489: look for the end of the
  construct in the window; when it is not there, refill once and look again. The result
  is the state (after the refill, if there was one) and the index found.
\<close>

definition find_or_refill ::
  "(state \<Rightarrow> nat \<Rightarrow> nat \<Rightarrow> nat option) \<Rightarrow> string \<Rightarrow> state \<Rightarrow> (string + state \<times> nat) option" where
  "find_or_refill look msg st = do {
     tagEnd \<leftarrow> look st (cursor st) (cursorEnd st);
     if tagEnd \<noteq> cursorEnd st then Some (Inr (st, tagEnd))
     else do {
       r \<leftarrow> refill_and_count st;
       case r of
         Inl m \<Rightarrow> Some (Inl m)
       | Inr st1 \<Rightarrow> do {
           tagEnd1 \<leftarrow> look st1 (cursor st1) (cursorEnd st1);
           if tagEnd1 = cursorEnd st1 then Some (Inl msg) else Some (Inr (st1, tagEnd1))
         }
     } }"

text \<open>
  Lines 342-359, and again 372-389: one \<open>name=value\<close> of the XML declaration after
  the version. The result is the name and the index of the closing delimiter.
\<close>

definition decl_attribute :: "state \<Rightarrow> nat \<Rightarrow> nat \<Rightarrow> (string + string \<times> nat) option" where
  "decl_attribute st c tagEnd = do {
     nameEnd \<leftarrow> std_find (CHR ''='') st c tagEnd;
     if nameEnd = tagEnd then Some (Inl ''parser error: Incomplete attribute in XML declaration'')
     else do {
       let attr2 = bytes st c nameEnd;
       delimiter2 \<leftarrow> deref st (Suc nameEnd);
       if \<not> is_quote delimiter2
       then Some (Inl (''parser error: Invalid end delimiter for attribute '' @ attr2
                        @ '' in XML declaration''))
       else do {
         valueEnd \<leftarrow> std_find delimiter2 st (Suc (Suc nameEnd)) tagEnd;
         if valueEnd = tagEnd
         then Some (Inl (''parser error: Incomplete attribute '' @ attr2 @ '' in XML declaration''))
         else Some (Inr (attr2, valueEnd))
       } } }"

text \<open>
  Lines 341-370: the optional second attribute. The result is the cursor after it and
  whether \<^verbatim>\<open>standalone\<close> now holds a value.
\<close>

definition decl_second :: "state \<Rightarrow> nat \<Rightarrow> nat \<Rightarrow> (string + nat \<times> bool) option" where
  "decl_second st c tagEnd =
     (if c \<noteq> tagEnd - 1 then do {
        r \<leftarrow> decl_attribute st c tagEnd;
        case r of
          Inl m \<Rightarrow> Some (Inl m)
        | Inr (attr2, valueEnd) \<Rightarrow>
            if attr2 = ''encoding'' \<or> attr2 = ''standalone'' then do {
              c' \<leftarrow> std_find_if_not isspace st (Suc valueEnd) tagEnd;
              Some (Inr (c', attr2 = ''standalone''))
            }
            else Some (Inl (''parser error: Invalid attribute '' @ attr2 @ '' in XML declaration''))
      }
      else Some (Inr (c, False)))"

text \<open>Lines 371-398: the optional third attribute, \<^verbatim>\<open>standalone\<close> if not yet given.\<close>

definition decl_third :: "state \<Rightarrow> nat \<Rightarrow> nat \<Rightarrow> bool \<Rightarrow> (string + nat) option" where
  "decl_third st c tagEnd standalone =
     (if c \<noteq> tagEnd - 2 + 1 then do {
        r \<leftarrow> decl_attribute st c tagEnd;
        case r of
          Inl m \<Rightarrow> Some (Inl m)
        | Inr (attr2, valueEnd) \<Rightarrow>
            if \<not> standalone \<and> attr2 = ''standalone''
            then std_find_if_not isspace st (Suc valueEnd) tagEnd \<bind> (\<lambda>c'. Some (Inr c'))
            else Some (Inl (''parser error: Invalid attribute '' @ attr2 @ '' in XML declaration''))
      }
      else Some (Inr c))"

text \<open>Lines 294-401.\<close>

definition parse_xml_declaration :: "state \<Rightarrow> step_result option" where
  "parse_xml_declaration st = do {
     found \<leftarrow> find_or_refill (std_find (CHR ''>'')) ''parser error: Incomplete XML declaration'' st;
     case found of
       Inl m \<Rightarrow> Some (Exit1 m)
     | Inr (st0, tagEnd) \<Rightarrow> do {
         c1 \<leftarrow> std_find_if_not isspace st0 (cursor st0 + 5) tagEnd;
         if c1 = tagEnd
         then Some (Exit1 ''parser error: Missing space after before version in XML declaration'')
         else do {
           nameEnd \<leftarrow> std_find (CHR ''='') st0 c1 tagEnd;
           let attr = bytes st0 c1 nameEnd;
           delimiter \<leftarrow> deref st0 (Suc nameEnd);
           if \<not> is_quote delimiter
           then Some (Exit1 ''parser error: Invalid start delimiter for version in XML declaration'')
           else do {
             valueEnd \<leftarrow> std_find delimiter st0 (Suc (Suc nameEnd)) tagEnd;
             if valueEnd = tagEnd
             then Some (Exit1 ''parser error: Invalid end delimiter for version in XML declaration'')
             else if attr \<noteq> ''version''
             then Some (Exit1 ''parser error: Missing required first attribute version in XML declaration'')
             else do {
               c2 \<leftarrow> std_find_if_not isspace st0 (Suc valueEnd) tagEnd;
               second \<leftarrow> decl_second st0 c2 tagEnd;
               case second of
                 Inl m \<Rightarrow> Some (Exit1 m)
               | Inr (c3, standalone) \<Rightarrow> do {
                   third \<leftarrow> decl_third st0 c3 tagEnd standalone;
                   case third of
                     Inl m \<Rightarrow> Some (Exit1 m)
                   | Inr c4 \<Rightarrow> do {
                       c5 \<leftarrow> std_find_if_not isspace st0 (c4 + 2) (cursorEnd st0);
                       Some (Continue (st0\<lparr>cursor := c5\<rparr>))
                     }
                 }
             } } }
       } }"

text \<open>Lines 403-429. The target and the data are views that only the trace reads.\<close>

definition parse_processing_instruction :: "state \<Rightarrow> step_result option" where
  "parse_processing_instruction st = do {
     found \<leftarrow> find_or_refill (std_search ''?>'') ''parser error: Incomplete XML declaration'' st;
     case found of
       Inl m \<Rightarrow> Some (Exit1 m)
     | Inr (st0, tagEnd) \<Rightarrow> do {
         let c1 = cursor st0 + 2;
         nameEnd \<leftarrow> find_name_end st0 c1 tagEnd;
         if nameEnd = tagEnd
         then Some (Exit1 (''parser error : Unterminated processing instruction ''
                            @ [CHR 0x27] @ bytes st0 c1 nameEnd @ [CHR 0x27]))
         else do {
           c2 \<leftarrow> std_find_if_not isspace st0 nameEnd tagEnd;
           Some (Continue (st0\<lparr>cursor := tagEnd + 2\<rparr>))
         }
       } }"

subsection \<open>End tags and start tags\<close>

text \<open>
  Lines 432-446 (limit 100) and 476-490 (limit 200): only a window shorter than the
  limit is searched for \<^verbatim>\<open>>\<close>, with one refill when it is not there.
\<close>

definition ensure_tag_end :: "int \<Rightarrow> string \<Rightarrow> state \<Rightarrow> (string + state) option" where
  "ensure_tag_end limit msg st =
     (if distance (cursor st) (cursorEnd st) < limit then do {
        found \<leftarrow> find_or_refill (std_find (CHR ''>'')) msg st;
        case found of Inl m \<Rightarrow> Some (Inl m) | Inr (st0, tagEnd) \<Rightarrow> Some (Inr st0)
      }
      else Some (Inr st))"

text \<open>Lines 431-473. The end tag decrements \<^verbatim>\<open>depth\<close> whatever its value is.\<close>

definition parse_end_tag :: "state \<Rightarrow> step_result option" where
  "parse_end_tag st = do {
     ensured \<leftarrow> ensure_tag_end 100 ''parser error: Incomplete element end tag'' st;
     case ensured of
       Inl m \<Rightarrow> Some (Exit1 m)
     | Inr st0 \<Rightarrow> do {
         let c1 = cursor st0 + 2;
         colon \<leftarrow> is_at st0 c1 (CHR '':'');
         if colon then Some (Exit1 ''parser error : Invalid end tag name'')
         else do {
           nameEnd \<leftarrow> find_name_end st0 c1 (cursorEnd st0);
           if nameEnd = cursorEnd st0
           then Some (Exit1 (''parser error : Unterminated end tag '' @ [CHR 0x27]
                              @ bytes st0 c1 nameEnd @ [CHR 0x27]))
           else do {
             colon2 \<leftarrow> is_at st0 nameEnd (CHR '':'');
             nameEnd2 \<leftarrow> (if colon2 then find_name_end st0 (Suc nameEnd) (cursorEnd st0)
                           else Some nameEnd);
             let qName = bytes st0 c1 nameEnd2;
             if qName = [] then Some (Exit1 ''parser error: EndTag: invalid element name'')
             else Some (Continue (st0\<lparr>cursor := Suc nameEnd2, depth := depth st0 - 1\<rparr>))
           } }
       } }"

text \<open>Lines 516-530: the counters, by the local name of the start tag.\<close>

definition count_element :: "string \<Rightarrow> state \<Rightarrow> state" where
  "count_element localName st =
     (if localName = ''expr'' then st\<lparr>exprCount := exprCount st + 1\<rparr>
      else if localName = ''decl'' then st\<lparr>declCount := declCount st + 1\<rparr>
      else if localName = ''comment'' then st\<lparr>commentCount := commentCount st + 1\<rparr>
      else if localName = ''function'' then st\<lparr>functionCount := functionCount st + 1\<rparr>
      else if localName = ''unit'' then
        (let st1 = st\<lparr>unitCount := unitCount st + 1\<rparr>
         in if depth st1 = 1 then st1\<lparr>isArchive := True\<rparr> else st1)
      else if localName = ''class'' then st\<lparr>classCount := classCount st + 1\<rparr>
      else st)"

text \<open>
  Lines 475-545. \<open>colonPosition\<close> is \<open>0\<close> without a colon, the length of the prefix
  with one. Lines 541-543 keep the tag name for the attribute handlers: the owned copy
  \<^verbatim>\<open>inTagQName\<close>, its first \<^verbatim>\<open>prefix.size()\<close> bytes, and the view that starts at
  \<^verbatim>\<open>inTagQName.data() + prefix.size() + 1\<close> and runs to the end of the copy.
\<close>

definition parse_start_tag :: "state \<Rightarrow> step_result option" where
  "parse_start_tag st = do {
     ensured \<leftarrow> ensure_tag_end 200 ''parser error: Incomplete element start tag'' st;
     case ensured of
       Inl m \<Rightarrow> Some (Exit1 m)
     | Inr st0 \<Rightarrow> do {
         let c1 = cursor st0 + 1;
         colon \<leftarrow> is_at st0 c1 (CHR '':'');
         if colon then Some (Exit1 ''parser error : Invalid start tag name'')
         else do {
           nameEnd \<leftarrow> find_name_end st0 c1 (cursorEnd st0);
           if nameEnd = cursorEnd st0
           then Some (Exit1 (''parser error : Unterminated start tag '' @ [CHR 0x27]
                              @ bytes st0 c1 nameEnd @ [CHR 0x27]))
           else do {
             colon2 \<leftarrow> is_at st0 nameEnd (CHR '':'');
             let colonPosition = (if colon2 then nameEnd - c1 else 0);
             nameEnd2 \<leftarrow> (if colon2 then find_name_end st0 (Suc nameEnd) (cursorEnd st0)
                           else Some nameEnd);
             let prefix = bytes st0 c1 (c1 + colonPosition);
             let qName = bytes st0 c1 nameEnd2;
             if qName = [] then Some (Exit1 ''parser error: StartTag: invalid element name'')
             else do {
               let colonPosition' = (if colonPosition \<noteq> 0 then colonPosition + 1 else colonPosition);
               let localName = bytes st0 (c1 + colonPosition') nameEnd2;
               let st1 = count_element localName st0;
               gt0 \<leftarrow> is_at st1 nameEnd2 (CHR ''>'');
               c2 \<leftarrow> (if \<not> gt0 then std_find_if_not isspace st1 nameEnd2 (cursorEnd st1)
                      else Some nameEnd2);
               gt \<leftarrow> is_at st1 c2 (CHR ''>'');
               if gt then Some (Continue (st1\<lparr>cursor := c2 + 1, depth := depth st1 + 1\<rparr>))
               else do {
                 slash \<leftarrow> and_also (is_at st1 c2 (CHR ''/'')) (is_at st1 (c2 + 1) (CHR ''>''));
                 if slash then Some (Continue (st1\<lparr>cursor := c2 + 2\<rparr>))
                 else Some (Continue (st1\<lparr>cursor := c2,
                        inTagQName := qName,
                        inTagPrefix := take (length prefix) qName,
                        inTagLocalName := drop (length prefix + 1) qName,
                        inTag := True\<rparr>))
               }
             } } }
       } }"

subsection \<open>Text\<close>

text \<open>Lines 546-548: outside the root element only white space is skipped.\<close>

definition parse_whitespace :: "state \<Rightarrow> step_result option" where
  "parse_whitespace st = do {
     c \<leftarrow> std_find_if_not isspace st (cursor st) (cursorEnd st);
     Some (Continue (st\<lparr>cursor := c\<rparr>))
   }"

text \<open>Lines 549-566.\<close>

definition parse_entity :: "state \<Rightarrow> step_result option" where
  "parse_entity st = do {
     let c = cursor st;
     lt \<leftarrow> and_also (is_at st (c + 1) (CHR ''l''))
             (and_also (is_at st (c + 2) (CHR ''t'')) (is_at st (c + 3) (CHR '';'')));
     if lt then Some (Continue (st\<lparr>cursor := c + 4, textsize := textsize st + 1\<rparr>))
     else do {
       gt \<leftarrow> and_also (is_at st (c + 1) (CHR ''g''))
               (and_also (is_at st (c + 2) (CHR ''t'')) (is_at st (c + 3) (CHR '';'')));
       if gt then Some (Continue (st\<lparr>cursor := c + 4, textsize := textsize st + 1\<rparr>))
       else do {
         amp \<leftarrow> and_also (is_at st (c + 1) (CHR ''a''))
                  (and_also (is_at st (c + 2) (CHR ''m''))
                    (and_also (is_at st (c + 3) (CHR ''p'')) (is_at st (c + 4) (CHR '';''))));
         if amp then Some (Continue (st\<lparr>cursor := c + 5, textsize := textsize st + 1\<rparr>))
         else Some (Continue (st\<lparr>cursor := c + 1, textsize := textsize st + 1\<rparr>))
       }
     } }"

text \<open>Lines 568-576.\<close>

definition parse_characters :: "state \<Rightarrow> step_result option" where
  "parse_characters st = do {
     tagEnd \<leftarrow> std_find_if (\<lambda>c. c = CHR ''<'' \<or> c = CHR ''&'') st (cursor st) (cursorEnd st);
     let characters = bytes st (cursor st) tagEnd;
     Some (Continue (st\<lparr>loc := loc st + std_count characters (CHR 0x0A),
                         textsize := textsize st + int (length characters),
                         cursor := cursor st + length characters\<rparr>))
   }"

subsection \<open>The scan loop and the report\<close>

text \<open>Lines 142-151: the branch that refills, and the only exit of the loop.\<close>

definition refill_step :: "state \<Rightarrow> step_result option" where
  "refill_step st = do {
     r \<leftarrow> refill_and_count st;
     case r of
       Inl m \<Rightarrow> Some (Exit1 m)
     | Inr st' \<Rightarrow>
         if \<not> inXMLComment st' \<and> \<not> inCDATA st' \<and> cursor st' = cursorEnd st'
         then Some (Break st') else Some (Continue st')
   }"

fun run_handler :: "handler \<Rightarrow> state \<Rightarrow> step_result option" where
  "run_handler Refill st = refill_step st"
| "run_handler Namespace st = parse_namespace st"
| "run_handler Attribute st = parse_attribute st"
| "run_handler XMLComment st = parse_comment st"
| "run_handler CData st = parse_cdata st"
| "run_handler XMLDecl st = parse_xml_declaration st"
| "run_handler ProcInstr st = parse_processing_instruction st"
| "run_handler EndTag st = parse_end_tag st"
| "run_handler StartTag st = parse_start_tag st"
| "run_handler Whitespace st = parse_whitespace st"
| "run_handler EntityRef st = parse_entity st"
| "run_handler Characters st = parse_characters st"

text \<open>One iteration of \<^verbatim>\<open>while (true)\<close>.\<close>

definition step :: "state \<Rightarrow> step_result option" where
  "step st = (case classify st of None \<Rightarrow> None | Some h \<Rightarrow> run_handler h st)"

text \<open>Lines 582-598: the values of the rows of the table, in the order they are printed.\<close>

record report =
  title_url :: string
  srcML_bytes :: int
  Characters_row :: int
  Files :: int
  LOC :: int
  Classes :: int
  Functions :: int
  Declarations :: int
  Expressions :: int
  Comments :: int

definition files :: "state \<Rightarrow> int" where
  "files st = (if isArchive st then unitCount st - 1 else unitCount st)"

definition make_report :: "state \<Rightarrow> report" where
  "make_report st =
     \<lparr> title_url = url st, srcML_bytes = totalBytes st, Characters_row = textsize st,
       Files = files st, LOC = loc st, Classes = classCount st, Functions = functionCount st,
       Declarations = declCount st, Expressions = exprCount st, Comments = commentCount st \<rparr>"

text \<open>
  How a run ends: \<^verbatim>\<open>return 0\<close> after the report, \<^verbatim>\<open>return 1\<close> after a parser
  error, or undefined behaviour. A run that never leaves the loop has no outcome:
  \<open>scan\<close> is \<open>None\<close> on it.
\<close>

datatype outcome = Exit0 report | ExitError string | Undefined

partial_function (option) scan :: "state \<Rightarrow> outcome option" where
  "scan st =
     (case step st of
        None \<Rightarrow> Some Undefined
      | Some (Exit1 m) \<Rightarrow> Some (ExitError m)
      | Some (Break st') \<Rightarrow> Some (Exit0 (make_report st'))
      | Some (Continue st') \<Rightarrow> scan st')"

declare scan.simps [code]

definition main_with :: "nat \<Rightarrow> event list \<Rightarrow> outcome option" where
  "main_with cap evs = scan (initial cap evs)"

definition main :: "event list \<Rightarrow> outcome option" where
  "main evs = main_with BUFFER_SIZE evs"

text \<open>
  The state at the \<open>n\<close>-th iteration boundary of the scan loop, when the loop gets
  that far.
\<close>

fun boundary :: "nat \<Rightarrow> state \<Rightarrow> state option" where
  "boundary 0 st = Some st"
| "boundary (Suc n) st =
     (case step st of Some (Continue st') \<Rightarrow> boundary n st' | _ \<Rightarrow> None)"

subsection \<open>Streams\<close>

text \<open>
  The bytes that an event list holds, and the event lists on which every read succeeds:
  no input error, and no read of zero bytes before the end (which the program would take
  for the end of file).
\<close>

fun delivered :: "event list \<Rightarrow> string" where
  "delivered [] = []"
| "delivered (Data bs # es) = bs @ delivered es"
| "delivered (e # es) = delivered es"

definition readable :: "event list \<Rightarrow> bool" where
  "readable evs \<longleftrightarrow> Eio \<notin> set evs \<and> Data [] \<notin> set evs"

subsection \<open>Inputs of the scenarios\<close>

text \<open>
  The first end-to-end scenario: the XML declaration with the version in double quotes,
  a newline, \<^verbatim>\<open><unit><expr/></unit>\<close> and a newline.
\<close>

definition scenario1 :: string where
  "scenario1 = ''<?xml version='' @ [CHR 0x22] @ ''1.0'' @ [CHR 0x22] @ ''?>'' @ [CHR 0x0A]
     @ ''<unit><expr/></unit>'' @ [CHR 0x0A]"


definition prefixed_url_tag :: string where
  "prefixed_url_tag = ''<a p:url='' @ [CHR 0x22] @ ''v'' @ [CHR 0x22] @ ''/>''"

section \<open>Evaluation\<close>

lemmas scanner_defs =
  main_def main_with_def initial_def BUFFER_SIZE_def step_def classify_def
  refill_step_def refill_and_count_def refillBuffer_def distance_def
  and_also_def or_else_def is_at_def deref_def
  isspace_def tagNameMask_def tagNameMask_literal_def valid_range_def std_find_if_def
  std_find_def std_find_if_not_def find_name_end_def std_search_def std_count_def sv_find_def
  is_quote_def close_header_def parse_namespace_def parse_attribute_def parse_comment_def
  parse_cdata_def find_or_refill_def decl_attribute_def decl_second_def decl_third_def
  parse_xml_declaration_def parse_processing_instruction_def ensure_tag_end_def
  parse_end_tag_def count_element_def parse_start_tag_def parse_whitespace_def
  parse_entity_def parse_characters_def make_report_def files_def bytes_def window_def

lemma boundary_numeral:
  "boundary (numeral k) st =
     (case step st of Some (Continue st') \<Rightarrow> boundary (pred_numeral k) st' | _ \<Rightarrow> None)"
  by (simp add: numeral_eq_Suc)

section \<open>The first scenario\<close>

lemma scenario1_length: "length scenario1 = 43"
  by (simp add: scenario1_def)

lemma scenario1_run:
  "main [Data scenario1] =
     Some (Exit0 \<lparr> title_url = [], srcML_bytes = 43, Characters_row = 0, Files = 1, LOC = 0,
                   Classes = 0, Functions = 0, Declarations = 0, Expressions = 1,
                   Comments = 0 \<rparr>)"
  by (simp add: scanner_defs scenario1_def scan.simps)

lemma scenario1_three_reads:
  "main [Data ''<?xml'', Data '' version'', Data (drop 13 scenario1)] =
     Some (ExitError ''parser error: Incomplete XML declaration'')"
  by (simp add: scanner_defs scenario1_def scan.simps)

lemma scenario1_three_reads_delivered:
  "delivered [Data ''<?xml'', Data '' version'', Data (drop 13 scenario1)] = scenario1"
  by (simp add: scenario1_def)

text \<open>
  C6, as the code has it. The input of the first scenario has 43 bytes. When one call of
  \<^verbatim>\<open>read\<close> returns all of them, the program exits 0 and the rows are srcML bytes = 43
  (every byte read is counted), Characters = 0, Files = 1, LOC = 0, Classes = 0,
  Functions = 0, Declarations = 0, Expressions = 1, Comments = 0. The result belongs to
  that delivery, not to the input alone: when the same 43 bytes arrive as \<^verbatim>\<open><?xml\<close>,
  then \<^verbatim>\<open> version\<close>, then the rest, the handler of the XML declaration refills once,
  finds no \<^verbatim>\<open>>\<close> and the program exits 1 with
  \<^verbatim>\<open>parser error: Incomplete XML declaration\<close> (lines 297-308).
\<close>

theorem C6_scenario1_report:
  "main [Data scenario1] =
     Some (Exit0 \<lparr> title_url = [], srcML_bytes = int (length scenario1), Characters_row = 0,
                   Files = 1, LOC = 0, Classes = 0, Functions = 0, Declarations = 0,
                   Expressions = 1, Comments = 0 \<rparr>)
   \<and> length scenario1 = 43
   \<and> delivered [Data scenario1] = scenario1
   \<and> delivered [Data ''<?xml'', Data '' version'', Data (drop 13 scenario1)] = scenario1
   \<and> main [Data ''<?xml'', Data '' version'', Data (drop 13 scenario1)] =
     Some (ExitError ''parser error: Incomplete XML declaration'')"
  unfolding scenario1_three_reads scenario1_three_reads_delivered
  by (simp add: scenario1_run scenario1_length)

text \<open>C6 as stated fails: the row srcML bytes is not 37.\<close>

theorem C6_scenario1_not_37:
  "main [Data scenario1] \<noteq>
     Some (Exit0 \<lparr> title_url = [], srcML_bytes = 37, Characters_row = 0, Files = 1, LOC = 0,
                   Classes = 0, Functions = 0, Declarations = 0, Expressions = 1,
                   Comments = 0 \<rparr>)"
  by (simp add: scenario1_run)

section \<open>The same bytes in different windows\<close>

text \<open>
  The document \<^verbatim>\<open><a><!--x--><b>&lt;</b>--></a>\<close> has 29 bytes. Read in one piece,
  its comment ends at the first \<^verbatim>\<open>-->\<close> and four characters of text follow.
\<close>

lemma comment_whole_run:
  \<open>main [Data ''<a><!--x--><b>&lt;</b>--></a>''] =
     Some (Exit0 \<lparr> title_url = [], srcML_bytes = 29, Characters_row = 4, Files = 0, LOC = 0,
                   Classes = 0, Functions = 0, Declarations = 0, Expressions = 0,
                   Comments = 0 \<rparr>)\<close>
  by (simp add: scanner_defs scan.simps)

lemma comment_split_run:
  \<open>main [Data ''<a><!--x--'', Data ''><b>&lt;</b>--></a>''] =
     Some (Exit0 \<lparr> title_url = [], srcML_bytes = 29, Characters_row = 0, Files = 0, LOC = 0,
                   Classes = 0, Functions = 0, Declarations = 0, Expressions = 0,
                   Comments = 0 \<rparr>)\<close>
  by (simp add: scanner_defs scan.simps)

lemma comment_capacity_64:
  \<open>main_with 64 [Data ''<a><!--x--><b>&lt;</b>--></a>''] =
     Some (Exit0 \<lparr> title_url = [], srcML_bytes = 29, Characters_row = 4, Files = 0, LOC = 0,
                   Classes = 0, Functions = 0, Declarations = 0, Expressions = 0,
                   Comments = 0 \<rparr>)\<close>
  by (simp add: scanner_defs scan.simps)

lemma comment_capacity_10:
  \<open>main_with 10 [Data ''<a><!--x--><b>&lt;</b>--></a>''] =
     Some (Exit0 \<lparr> title_url = [], srcML_bytes = 29, Characters_row = 0, Files = 0, LOC = 0,
                   Classes = 0, Functions = 0, Declarations = 0, Expressions = 0,
                   Comments = 0 \<rparr>)\<close>
  by (simp add: scanner_defs scan.simps)

text \<open>
  C1 (boundary independence) does not hold of the code. The same 29 bytes give
  Characters = 4 when one read delivers them and Characters = 0 when the first read ends
  between the two dashes and the \<^verbatim>\<open>>\<close> of the comment terminator; likewise with a
  buffer of 64 bytes and one of 10 bytes. The comment handler resumes its search for the
  terminator at the start of the next window and never sees a terminator that straddles
  two windows.
\<close>

theorem C1_boundary_dependence:
  \<open>main [Data ''<a><!--x--><b>&lt;</b>--></a>''] =
     Some (Exit0 \<lparr> title_url = [], srcML_bytes = 29, Characters_row = 4, Files = 0, LOC = 0,
                   Classes = 0, Functions = 0, Declarations = 0, Expressions = 0,
                   Comments = 0 \<rparr>)
   \<and> main [Data ''<a><!--x--'', Data ''><b>&lt;</b>--></a>''] =
     Some (Exit0 \<lparr> title_url = [], srcML_bytes = 29, Characters_row = 0, Files = 0, LOC = 0,
                   Classes = 0, Functions = 0, Declarations = 0, Expressions = 0,
                   Comments = 0 \<rparr>)
   \<and> main_with 64 [Data ''<a><!--x--><b>&lt;</b>--></a>'']
       \<noteq> main_with 10 [Data ''<a><!--x--><b>&lt;</b>--></a>'']\<close>
  by (simp add: comment_whole_run comment_split_run comment_capacity_64 comment_capacity_10)

section \<open>Reads outside the window\<close>

text \<open>
  The tag header \<^verbatim>\<open><a b=">" xmlns="u"/>\<close>, with the first read ending after
  \<^verbatim>\<open>xmlns\<close>. At the third iteration boundary the window is the five bytes
  \<^verbatim>\<open>xmlns\<close>, so no refill is made, and the test of line 152 reads \<^verbatim>\<open>cursor[5]\<close>,
  the byte at \<^verbatim>\<open>cursorEnd\<close>.
\<close>

lemma xmlns_state:
  \<open>map_option (\<lambda>st. (distance (cursor st) (cursorEnd st), window st, classify st,
       classify (st\<lparr>buffer := (buffer st)(cursorEnd st := CHR ''='')\<rparr>)))
     (boundary 3 (initial BUFFER_SIZE [Data ''<a b=">" xmlns'', Data ''="u"/>'']))
   = Some (5, ''xmlns'', Some Attribute, Some Namespace)\<close>
  by (simp add: scanner_defs boundary_numeral)

lemma xmlns_split_run:
  \<open>main [Data ''<a b=">" xmlns'', Data ''="u"/>''] =
     Some (ExitError ''parser error : Empty attribute name'')\<close>
  by (simp add: scanner_defs scan.simps)

lemma xmlns_whole_run:
  \<open>main [Data ''<a b=">" xmlns="u"/>''] =
     Some (Exit0 \<lparr> title_url = [], srcML_bytes = 20, Characters_row = 0, Files = 0, LOC = 0,
                   Classes = 0, Functions = 0, Declarations = 0, Expressions = 0,
                   Comments = 0 \<rparr>)\<close>
  by (simp add: scanner_defs scan.simps)

text \<open>
  C3 does not hold of the code: the classifier reads the byte at \<^verbatim>\<open>cursorEnd\<close>. In
  the run below the window at the third iteration boundary is exactly \<^verbatim>\<open>xmlns\<close>;
  the handler chosen is the attribute handler with the stale byte that the buffer holds
  at \<^verbatim>\<open>cursorEnd\<close>, and the namespace handler when that one byte, which is outside the
  window, is \<^verbatim>\<open>=\<close>. The run ends in a parser error, while the same bytes read in one
  piece are accepted.
\<close>

theorem C3_classifier_reads_at_cursorEnd:
  \<open>(\<exists>st. boundary 3 (initial BUFFER_SIZE [Data ''<a b=">" xmlns'', Data ''="u"/>'']) = Some st
      \<and> distance (cursor st) (cursorEnd st) = 5 \<and> window st = ''xmlns''
      \<and> classify st = Some Attribute
      \<and> classify (st\<lparr>buffer := (buffer st)(cursorEnd st := CHR ''='')\<rparr>) = Some Namespace)
   \<and> main [Data ''<a b=">" xmlns'', Data ''="u"/>''] =
       Some (ExitError ''parser error : Empty attribute name'')
   \<and> main [Data ''<a b=">" xmlns="u"/>''] =
       Some (Exit0 \<lparr> title_url = [], srcML_bytes = 20, Characters_row = 0, Files = 0, LOC = 0,
                     Classes = 0, Functions = 0, Declarations = 0, Expressions = 0,
                     Comments = 0 \<rparr>)\<close>
  using xmlns_state xmlns_split_run xmlns_whole_run by auto

section \<open>The remembered tag name\<close>

lemma unit_tag_state:
  \<open>map_option (\<lambda>st. (inTag st, inTagQName st, inTagPrefix st, inTagLocalName st))
     (boundary 2 (initial BUFFER_SIZE [Data ''<unit url="x"></unit>'']))
   = Some (True, ''unit'', [], ''nit'')\<close>
  by (simp add: scanner_defs boundary_numeral)

lemma prefixed_tag_state:
  \<open>map_option (\<lambda>st. (inTag st, inTagQName st, inTagPrefix st, inTagLocalName st))
     (boundary 2 (initial BUFFER_SIZE [Data ''<cpp:if url="x"></cpp:if>'']))
   = Some (True, ''cpp:if'', ''cpp'', ''if'')\<close>
  by (simp add: scanner_defs boundary_numeral)

text \<open>
  C9 does not hold of the code for a name without a colon. After the start tag
  \<^verbatim>\<open><unit url="x">\<close> has set \<^verbatim>\<open>inTag\<close>, the copy \<^verbatim>\<open>inTagQName\<close> is \<^verbatim>\<open>unit\<close> and
  \<^verbatim>\<open>inTagPrefix\<close> is empty, but \<^verbatim>\<open>inTagLocalName\<close> is \<^verbatim>\<open>nit\<close>: line 543 skips
  \<^verbatim>\<open>prefix.size() + 1\<close> bytes whether or not there is a colon. With a prefix
  (\<^verbatim>\<open>cpp:if\<close>) the three values are right.
\<close>

theorem C9_inTagLocalName_without_colon:
  \<open>(\<exists>st. boundary 2 (initial BUFFER_SIZE [Data ''<unit url="x"></unit>'']) = Some st
      \<and> inTag st \<and> inTagQName st = ''unit'' \<and> inTagPrefix st = []
      \<and> inTagLocalName st = ''nit'')
   \<and> (\<exists>st. boundary 2 (initial BUFFER_SIZE [Data ''<cpp:if url="x"></cpp:if>'']) = Some st
      \<and> inTag st \<and> inTagQName st = ''cpp:if'' \<and> inTagPrefix st = ''cpp''
      \<and> inTagLocalName st = ''if'')\<close>
  using unit_tag_state prefixed_tag_state by auto

section \<open>What one iteration does to \<^verbatim>\<open>depth\<close>, \<^verbatim>\<open>unitCount\<close> and \<^verbatim>\<open>isArchive\<close>\<close>

lemma refillBuffer_frame:
  "refillBuffer st = Some (n, st') \<Longrightarrow>
     depth st' = depth st \<and> isArchive st' = isArchive st \<and> unitCount st' = unitCount st"
  by (auto simp: refillBuffer_def Let_def split: if_splits prod.splits rd.splits)

lemma refill_and_count_frame:
  "refill_and_count st = Some (Inr st') \<Longrightarrow>
     depth st' = depth st \<and> isArchive st' = isArchive st \<and> unitCount st' = unitCount st"
  by (auto simp: refill_and_count_def split: option.splits if_splits dest!: refillBuffer_frame)

lemma find_or_refill_frame:
  "find_or_refill look msg st = Some (Inr (st', p)) \<Longrightarrow>
     depth st' = depth st \<and> isArchive st' = isArchive st \<and> unitCount st' = unitCount st"
  by (auto simp: find_or_refill_def split: Option.bind_splits if_splits sum.splits dest!: refill_and_count_frame)

lemma ensure_tag_end_frame:
  "ensure_tag_end limit msg st = Some (Inr st') \<Longrightarrow>
     depth st' = depth st \<and> isArchive st' = isArchive st \<and> unitCount st' = unitCount st"
  by (auto simp: ensure_tag_end_def split: Option.bind_splits if_splits sum.splits prod.splits dest!: find_or_refill_frame)

lemma close_header_frame:
  "close_header st = Some (Continue st') \<Longrightarrow>
     (depth st' = depth st \<or> depth st' = depth st + 1) \<and> isArchive st' = isArchive st
     \<and> unitCount st' = unitCount st"
  by (auto simp: close_header_def split: Option.bind_splits if_splits)

lemma parse_namespace_frame:
  "parse_namespace st = Some (Continue st') \<Longrightarrow>
     (depth st' = depth st \<or> depth st' = depth st + 1) \<and> isArchive st' = isArchive st
     \<and> unitCount st' = unitCount st"
  by (auto simp: parse_namespace_def Let_def split: Option.bind_splits if_splits dest!: close_header_frame)

lemma parse_attribute_frame:
  "parse_attribute st = Some (Continue st') \<Longrightarrow>
     (depth st' = depth st \<or> depth st' = depth st + 1) \<and> isArchive st' = isArchive st
     \<and> unitCount st' = unitCount st"
  by (auto simp: parse_attribute_def Let_def split: Option.bind_splits if_splits dest!: close_header_frame)

lemma parse_comment_frame:
  "parse_comment st = Some (Continue st') \<Longrightarrow>
     depth st' = depth st \<and> isArchive st' = isArchive st \<and> unitCount st' = unitCount st"
  by (auto simp: parse_comment_def Let_def split: Option.bind_splits if_splits)

lemma parse_cdata_frame:
  "parse_cdata st = Some (Continue st') \<Longrightarrow>
     depth st' = depth st \<and> isArchive st' = isArchive st \<and> unitCount st' = unitCount st"
  by (auto simp: parse_cdata_def Let_def split: Option.bind_splits if_splits)

lemma parse_xml_declaration_frame:
  "parse_xml_declaration st = Some (Continue st') \<Longrightarrow>
     depth st' = depth st \<and> isArchive st' = isArchive st \<and> unitCount st' = unitCount st"
  by (auto simp: parse_xml_declaration_def Let_def
      split: Option.bind_splits if_splits sum.splits prod.splits dest!: find_or_refill_frame)

lemma parse_processing_instruction_frame:
  "parse_processing_instruction st = Some (Continue st') \<Longrightarrow>
     depth st' = depth st \<and> isArchive st' = isArchive st \<and> unitCount st' = unitCount st"
  by (auto simp: parse_processing_instruction_def Let_def
      split: Option.bind_splits if_splits sum.splits prod.splits dest!: find_or_refill_frame)

lemma parse_end_tag_frame:
  "parse_end_tag st = Some (Continue st') \<Longrightarrow>
     depth st' = depth st - 1 \<and> isArchive st' = isArchive st \<and> unitCount st' = unitCount st"
  by (auto simp: parse_end_tag_def Let_def
      split: Option.bind_splits if_splits sum.splits prod.splits dest!: ensure_tag_end_frame)

lemma count_element_frame:
  "depth (count_element name st) = depth st
   \<and> unitCount (count_element name st) = unitCount st + (if name = ''unit'' then 1 else 0)
   \<and> (isArchive (count_element name st) \<longleftrightarrow> isArchive st \<or> name = ''unit'' \<and> depth st = 1)"
  by (simp add: count_element_def Let_def)

lemma parse_start_tag_frame:
  "parse_start_tag st = Some (Continue st') \<Longrightarrow>
     (depth st' = depth st \<or> depth st' = depth st + 1)
     \<and> (unitCount st' = unitCount st \<or> unitCount st' = unitCount st + 1)
     \<and> (isArchive st' \<longleftrightarrow> isArchive st \<or> unitCount st' = unitCount st + 1 \<and> depth st = 1)"
  apply (simp add: parse_start_tag_def Let_def
      split: Option.bind_splits if_splits sum.splits prod.splits)
  apply (auto dest!: ensure_tag_end_frame simp: count_element_frame split: if_splits)
  done

lemma parse_whitespace_frame:
  "parse_whitespace st = Some (Continue st') \<Longrightarrow>
     depth st' = depth st \<and> isArchive st' = isArchive st \<and> unitCount st' = unitCount st"
  by (auto simp: parse_whitespace_def split: Option.bind_splits)

lemma parse_entity_frame:
  "parse_entity st = Some (Continue st') \<Longrightarrow>
     depth st' = depth st \<and> isArchive st' = isArchive st \<and> unitCount st' = unitCount st"
  by (auto simp: parse_entity_def Let_def split: Option.bind_splits if_splits)

lemma parse_characters_frame:
  "parse_characters st = Some (Continue st') \<Longrightarrow>
     depth st' = depth st \<and> isArchive st' = isArchive st \<and> unitCount st' = unitCount st"
  by (auto simp: parse_characters_def Let_def split: Option.bind_splits)

lemma refill_step_frame:
  "refill_step st = Some (Continue st') \<Longrightarrow>
     depth st' = depth st \<and> isArchive st' = isArchive st \<and> unitCount st' = unitCount st"
  by (auto simp: refill_step_def split: Option.bind_splits sum.splits if_splits
      dest!: refill_and_count_frame)

lemma step_frame:
  "step st = Some (Continue st') \<Longrightarrow>
     (depth st' = depth st
        \<or> (classify st = Some StartTag \<or> classify st = Some Namespace \<or> classify st = Some Attribute)
            \<and> depth st' = depth st + 1
        \<or> classify st = Some EndTag \<and> depth st' = depth st - 1)
     \<and> (isArchive st' \<longleftrightarrow>
          isArchive st
          \<or> classify st = Some StartTag \<and> unitCount st' = unitCount st + 1 \<and> depth st = 1)"
proof -
  assume a: "step st = Some (Continue st')"
  then obtain h where h: "classify st = Some h" and r: "run_handler h st = Some (Continue st')"
    by (auto simp: step_def split: option.splits)
  show ?thesis
  proof (cases h)
    case Refill with r h show ?thesis by (auto dest!: refill_step_frame)
  next
    case Namespace with r h show ?thesis by (auto dest!: parse_namespace_frame)
  next
    case Attribute with r h show ?thesis by (auto dest!: parse_attribute_frame)
  next
    case XMLComment with r h show ?thesis by (auto dest!: parse_comment_frame)
  next
    case CData with r h show ?thesis by (auto dest!: parse_cdata_frame)
  next
    case XMLDecl with r h show ?thesis by (auto dest!: parse_xml_declaration_frame)
  next
    case ProcInstr with r h show ?thesis by (auto dest!: parse_processing_instruction_frame)
  next
    case EndTag with r h show ?thesis by (auto dest!: parse_end_tag_frame)
  next
    case StartTag with r h show ?thesis by (auto dest!: parse_start_tag_frame)
  next
    case Whitespace with r h show ?thesis by (auto dest!: parse_whitespace_frame)
  next
    case EntityRef with r h show ?thesis by (auto dest!: parse_entity_frame)
  next
    case Characters with r h show ?thesis by (auto dest!: parse_characters_frame)
  qed
qed

section \<open>The nesting depth\<close>

lemma end_tag_first_depth:
  \<open>map_option depth (boundary 2 (initial BUFFER_SIZE [Data ''</a>xxxxx''])) = Some (- 1)\<close>
  by (simp add: scanner_defs boundary_numeral)

text \<open>
  C4 as stated fails: on the input \<^verbatim>\<open></a>xxxxx\<close> the end tag is handled at depth 0
  and \<^verbatim>\<open>depth\<close> is -1 at the second iteration boundary.
\<close>

theorem C4_negative_depth:
  \<open>map_option depth (boundary 2 (initial BUFFER_SIZE [Data ''</a>xxxxx''])) = Some (- 1)\<close>
  by (rule end_tag_first_depth)

lemma boundary_Suc_end:
  "boundary (Suc n) st0 =
     (case boundary n st0 of
        None \<Rightarrow> None
      | Some s \<Rightarrow> (case step s of Some (Continue s') \<Rightarrow> Some s' | _ \<Rightarrow> None))"
proof (induction n arbitrary: st0)
  case 0
  show ?case by (simp split: option.splits step_result.splits)
next
  case (Suc n)
  show ?case
  proof (cases "step st0")
    case None
    then show ?thesis by simp
  next
    case (Some r)
    then show ?thesis
      using Suc.IH by (cases r) simp_all
  qed
qed

lemma boundary_step:
  assumes "boundary (Suc n) st0 = Some st"
  obtains s where "boundary n st0 = Some s" and "step s = Some (Continue st)"
  using assms unfolding boundary_Suc_end
  by (auto split: option.splits step_result.splits)

lemma depth_nonnegative:
  "boundary n st0 = Some st \<Longrightarrow> 0 \<le> depth st0 \<Longrightarrow>
   (\<forall>k<n. \<forall>s. boundary k st0 = Some s \<longrightarrow> classify s = Some EndTag \<longrightarrow> 0 < depth s) \<Longrightarrow>
   0 \<le> depth st"
proof (induction n arbitrary: st)
  case 0
  then show ?case by simp
next
  case (Suc n)
  from Suc.prems(1) obtain s where s: "boundary n st0 = Some s" and st: "step s = Some (Continue st)"
    by (rule boundary_step)
  have "0 \<le> depth s"
    using Suc.IH [OF s Suc.prems(2)] Suc.prems(3) by (simp add: less_Suc_eq)
  moreover have "classify s = Some EndTag \<longrightarrow> 0 < depth s"
    using Suc.prems(3) s by blast
  ultimately show ?case
    using step_frame [OF st] by auto
qed

lemma depth_zero_before_tags:
  "boundary n st0 = Some st \<Longrightarrow> depth st0 = 0 \<Longrightarrow>
   (\<forall>k<n. \<forall>s. boundary k st0 = Some s \<longrightarrow>
      classify s \<notin> {Some StartTag, Some Namespace, Some Attribute, Some EndTag}) \<Longrightarrow>
   depth st = 0"
proof (induction n arbitrary: st)
  case 0
  then show ?case by simp
next
  case (Suc n)
  from Suc.prems(1) obtain s where s: "boundary n st0 = Some s" and st: "step s = Some (Continue st)"
    by (rule boundary_step)
  have "depth s = 0"
    using Suc.IH [OF s Suc.prems(2)] Suc.prems(3) by (simp add: less_Suc_eq)
  moreover have "classify s \<notin> {Some StartTag, Some Namespace, Some Attribute, Some EndTag}"
    using Suc.prems(3) s by blast
  ultimately show ?case
    using step_frame [OF st] by auto
qed

text \<open>
  C4, as the code has it. \<^verbatim>\<open>depth\<close> is 0 before the first iteration. The end-tag
  handler decrements it whatever its value is (the parser does not check
  well-formedness), so it stays at or above 0 at the iteration boundaries of a run in
  which no end tag is handled at depth 0 or below; and it stays 0 at every
  boundary before the first tag handler (start tag, attribute, namespace or end tag) runs.
\<close>

theorem C4_depth_invariant:
  "depth (initial cap evs) = 0
   \<and> (boundary n (initial cap evs) = Some st
       \<longrightarrow> (\<forall>k<n. \<forall>s. boundary k (initial cap evs) = Some s
              \<longrightarrow> classify s = Some EndTag \<longrightarrow> 0 < depth s)
       \<longrightarrow> 0 \<le> depth st)
   \<and> (boundary n (initial cap evs) = Some st
       \<longrightarrow> (\<forall>k<n. \<forall>s. boundary k (initial cap evs) = Some s
              \<longrightarrow> classify s \<notin> {Some StartTag, Some Namespace, Some Attribute, Some EndTag})
       \<longrightarrow> depth st = 0)"
proof -
  have d0: "depth (initial cap evs) = 0" by (simp add: initial_def)
  show ?thesis
    using d0 depth_nonnegative [of n "initial cap evs" st]
      depth_zero_before_tags [of n "initial cap evs" st]
    by auto
qed

text \<open>
  The first scenario: the handlers of its six iterations and \<^verbatim>\<open>depth\<close> before each.
\<close>

lemma scenario1_trace:
  "map (\<lambda>k. map_option (\<lambda>s. (classify s, depth s)) (boundary k (initial BUFFER_SIZE [Data scenario1])))
     [0, 1, 2, 3, 4, 5]
   = [Some (Some Refill, 0), Some (Some XMLDecl, 0), Some (Some StartTag, 0),
      Some (Some StartTag, 1), Some (Some EndTag, 1), Some (Some Refill, 0)]"
  by (simp add: scanner_defs scenario1_def boundary_numeral)

text \<open>
  The invariant of C4 on the first scenario: its only end tag is handled at depth 1, and
  its first two iterations (the refill and the XML declaration) run no tag handler.
\<close>

theorem C4_depth_invariant_witness:
  "(\<exists>st. boundary 5 (initial BUFFER_SIZE [Data scenario1]) = Some st \<and> 0 \<le> depth st)
   \<and> (\<exists>st. boundary 2 (initial BUFFER_SIZE [Data scenario1]) = Some st \<and> depth st = 0)"
proof -
  let ?i = "initial BUFFER_SIZE [Data scenario1]"
  from scenario1_trace obtain st2 st5 where st: "boundary 2 ?i = Some st2" "boundary 5 ?i = Some st5"
    by auto
  have ends: "\<forall>k<5. \<forall>s. boundary k ?i = Some s \<longrightarrow> classify s = Some EndTag \<longrightarrow> 0 < depth s"
  proof (intro allI impI)
    fix k s
    assume k: "k < (5::nat)" and s: "boundary k ?i = Some s" and e: "classify s = Some EndTag"
    from k consider "k = 0" | "k = 1" | "k = 2" | "k = 3" | "k = 4" by linarith
    then show "0 < depth s"
      using scenario1_trace s e by cases auto
  qed
  have tags: "\<forall>k<2. \<forall>s. boundary k ?i = Some s \<longrightarrow>
      classify s \<notin> {Some StartTag, Some Namespace, Some Attribute, Some EndTag}"
  proof (intro allI impI)
    fix k s
    assume k: "k < (2::nat)" and s: "boundary k ?i = Some s"
    from k consider "k = 0" | "k = 1" by linarith
    then show "classify s \<notin> {Some StartTag, Some Namespace, Some Attribute, Some EndTag}"
      using scenario1_trace s by cases auto
  qed
  have "0 \<le> depth st5"
    using C4_depth_invariant [of BUFFER_SIZE "[Data scenario1]" 5 st5] st(2) ends by blast
  moreover have "depth st2 = 0"
    using C4_depth_invariant [of BUFFER_SIZE "[Data scenario1]" 2 st2] st(1) tags by blast
  ultimately show ?thesis
    using st by blast
qed

section \<open>Archives\<close>

lemma nested_unit_archive:
  \<open>map_option isArchive (boundary 3 (initial BUFFER_SIZE [Data ''<a><unit/></a>''])) = Some True\<close>
  by (simp add: scanner_defs boundary_numeral)

lemma nested_unit_run:
  \<open>main [Data ''<a><unit/></a>''] =
     Some (Exit0 \<lparr> title_url = [], srcML_bytes = 14, Characters_row = 0, Files = 0, LOC = 0,
                   Classes = 0, Functions = 0, Declarations = 0, Expressions = 0,
                   Comments = 0 \<rparr>)\<close>
  by (simp add: scanner_defs scan.simps)

text \<open>
  C5 as stated fails. In \<^verbatim>\<open><a><unit/></a>\<close> the outermost element is not
  \<^verbatim>\<open>unit\<close> and the nested \<^verbatim>\<open>unit\<close> is self-closing, yet \<^verbatim>\<open>isArchive\<close> is true after
  its start tag and the report has Files = 0.
\<close>

theorem C5_archive_without_unit_root:
  \<open>map_option isArchive (boundary 3 (initial BUFFER_SIZE [Data ''<a><unit/></a>''])) = Some True
   \<and> main [Data ''<a><unit/></a>''] =
     Some (Exit0 \<lparr> title_url = [], srcML_bytes = 14, Characters_row = 0, Files = 0, LOC = 0,
                   Classes = 0, Functions = 0, Declarations = 0, Expressions = 0,
                   Comments = 0 \<rparr>)\<close>
  by (simp add: nested_unit_archive nested_unit_run)

section \<open>Entity references\<close>

lemma bytes_Cons: "i < j \<Longrightarrow> bytes st i j = buffer st i # bytes st (Suc i) j"
  by (simp add: bytes_def upt_conv_Cons)

lemma bytes_Nil [simp]: "bytes st i i = []"
  by (simp add: bytes_def)

lemma bytes3:
  "bytes st (c + 1) (c + 1 + 3) = [buffer st (c + 1), buffer st (c + 2), buffer st (c + 3)]"
proof -
  have "[c + 1..<c + 1 + 3] = [c + 1, c + 2, c + 3]"
    by (simp add: upt_conv_Cons)
  then show ?thesis by (simp only: bytes_def list.map)
qed

lemma bytes4:
  "bytes st (c + 1) (c + 1 + 4)
     = [buffer st (c + 1), buffer st (c + 2), buffer st (c + 3), buffer st (c + 4)]"
proof -
  have "[c + 1..<c + 1 + 4] = [c + 1, c + 2, c + 3, c + 4]"
    by (simp add: upt_conv_Cons)
  then show ?thesis by (simp only: bytes_def list.map)
qed

lemma and_also_simps:
  "and_also (Some False) x = Some False"
  "and_also (Some True) x = x"
  "and_also (Some a) (Some b) = Some (a \<and> b)"
  by (simp_all add: and_also_def)

lemma or_else_simps:
  "or_else (Some False) x = x"
  "or_else (Some True) x = Some True"
  "or_else (Some a) (Some b) = Some (a \<or> b)"
  by (simp_all add: or_else_def)

lemma is_at_inside: "i < bufsize st \<Longrightarrow> is_at st i c = Some (buffer st i = c)"
  by (simp add: is_at_def deref_def)

lemma parse_entity_inside:
  assumes "cursor st + 5 \<le> bufsize st"
  shows "parse_entity st = Some (Continue (st\<lparr>cursor := cursor st +
            (if bytes st (cursor st + 1) (cursor st + 1 + 3) = ''lt;''
                \<or> bytes st (cursor st + 1) (cursor st + 1 + 3) = ''gt;'' then 4
             else if bytes st (cursor st + 1) (cursor st + 1 + 4) = ''amp;'' then 5 else 1),
          textsize := textsize st + 1\<rparr>))"
proof -
  define L where "L \<longleftrightarrow> buffer st (cursor st + 1) = CHR ''l''
     \<and> buffer st (cursor st + 2) = CHR ''t'' \<and> buffer st (cursor st + 3) = CHR '';''"
  define G where "G \<longleftrightarrow> buffer st (cursor st + 1) = CHR ''g''
     \<and> buffer st (cursor st + 2) = CHR ''t'' \<and> buffer st (cursor st + 3) = CHR '';''"
  define A where "A \<longleftrightarrow> buffer st (cursor st + 1) = CHR ''a''
     \<and> buffer st (cursor st + 2) = CHR ''m'' \<and> buffer st (cursor st + 3) = CHR ''p''
     \<and> buffer st (cursor st + 4) = CHR '';''"
  have b: "is_at st (cursor st + 1) = (\<lambda>c. Some (buffer st (cursor st + 1) = c))"
     "is_at st (cursor st + 2) = (\<lambda>c. Some (buffer st (cursor st + 2) = c))"
     "is_at st (cursor st + 3) = (\<lambda>c. Some (buffer st (cursor st + 3) = c))"
     "is_at st (cursor st + 4) = (\<lambda>c. Some (buffer st (cursor st + 4) = c))"
    using assms by (auto simp: is_at_inside)
  have k: "(if bytes st (cursor st + 1) (cursor st + 1 + 3) = ''lt;''
                \<or> bytes st (cursor st + 1) (cursor st + 1 + 3) = ''gt;'' then 4
             else if bytes st (cursor st + 1) (cursor st + 1 + 4) = ''amp;'' then 5 else 1)
           = (if L then 4 else if G then 4 else if A then 5 else (1::nat))"
    unfolding bytes3 bytes4 L_def G_def A_def by simp
  have pe: "parse_entity st =
      (if L then Some (Continue (st\<lparr>cursor := cursor st + 4, textsize := textsize st + 1\<rparr>))
       else if G then Some (Continue (st\<lparr>cursor := cursor st + 4, textsize := textsize st + 1\<rparr>))
       else if A then Some (Continue (st\<lparr>cursor := cursor st + 5, textsize := textsize st + 1\<rparr>))
       else Some (Continue (st\<lparr>cursor := cursor st + 1, textsize := textsize st + 1\<rparr>)))"
    unfolding parse_entity_def Let_def b and_also_simps L_def G_def A_def
    by (simp only: Option.bind.simps)
  show ?thesis
    unfolding pe k by (simp only: if_distrib [where f = "\<lambda>k. Some (Continue (st\<lparr>cursor := cursor st + k, textsize := textsize st + 1\<rparr>))"] split: if_split)
qed

text \<open>
  C7. When the scan loop reaches the entity handler (a window of at least five bytes, no
  tag header, comment or CDATA section in progress, \<^verbatim>\<open>&\<close> at the cursor, depth above
  0), the iteration adds exactly 1 to \<^verbatim>\<open>textsize\<close>, moves the cursor over the four
  bytes of \<^verbatim>\<open>&lt;\<close> or \<^verbatim>\<open>&gt;\<close>, over the five bytes of \<^verbatim>\<open>&amp;\<close>, and over the
  single \<^verbatim>\<open>&\<close> in every other case, and changes nothing else; \<^verbatim>\<open>loc\<close> in particular
  is unchanged.
\<close>

theorem C7_entity_reference:
  assumes "5 \<le> distance (cursor st) (cursorEnd st)" and "cursorEnd st \<le> bufsize st"
    and "\<not> inTag st" and "\<not> inXMLComment st" and "\<not> inCDATA st"
    and "buffer st (cursor st) = CHR ''&''" and "0 < depth st"
  shows "step st = Some (Continue (st\<lparr>cursor := cursor st +
            (if bytes st (cursor st + 1) (cursor st + 1 + 3) = ''lt;''
                \<or> bytes st (cursor st + 1) (cursor st + 1 + 3) = ''gt;'' then 4
             else if bytes st (cursor st + 1) (cursor st + 1 + 4) = ''amp;'' then 5 else 1),
          textsize := textsize st + 1\<rparr>))"
proof -
  have lt: "cursor st + 5 \<le> bufsize st" using assms(1,2) by (simp add: distance_def)
  have b: "cursor st < bufsize st" "Suc (cursor st) < bufsize st" "cursor st + 2 < bufsize st"
    "cursor st + 3 < bufsize st" "cursor st + 4 < bufsize st"
    using lt by simp_all
  note at = is_at_inside b assms(6)
  have c: "classify st = Some EntityRef"
    using assms(1,3,4,5,7) by (simp add: classify_def Let_def at and_also_simps or_else_simps)
  show ?thesis
    unfolding step_def c using parse_entity_inside [OF lt] by simp
qed

lemma entity_state:
  \<open>map_option (\<lambda>st. (cursor st, cursorEnd st, bufsize st, inTag st, inXMLComment st, inCDATA st,
        depth st, textsize st, bytes st 3 8))
     (boundary 2 (initial BUFFER_SIZE [Data ''<a>&amp;x</a>'']))
   = Some (3, 13, 1048576, False, False, False, 1, 0, ''&amp;'')\<close>
  by (simp add: scanner_defs boundary_numeral)

text \<open>
  C7 at the \<^verbatim>\<open>&amp;\<close> of \<^verbatim>\<open><a>&amp;x</a>\<close>.
\<close>

theorem C7_entity_reference_witness:
  \<open>\<exists>st. boundary 2 (initial BUFFER_SIZE [Data ''<a>&amp;x</a>'']) = Some st
      \<and> cursor st = 3 \<and> textsize st = 0
      \<and> step st = Some (Continue (st\<lparr>cursor := 8, textsize := 1\<rparr>))\<close>
proof -
  from entity_state obtain st where
    st: \<open>boundary 2 (initial BUFFER_SIZE [Data ''<a>&amp;x</a>'']) = Some st\<close>
    and f: "cursor st = 3" "cursorEnd st = 13" "bufsize st = 1048576" "\<not> inTag st"
      "\<not> inXMLComment st" "\<not> inCDATA st" "depth st = 1" "textsize st = 0"
    and b: "bytes st 3 8 = ''&amp;''"
    by auto
  from b have bs: "buffer st 3 = CHR ''&''" "buffer st 4 = CHR ''a''" "buffer st 5 = CHR ''m''"
    "buffer st 6 = CHR ''p''" "buffer st 7 = CHR '';''"
    by (simp_all add: bytes_def)
  have k: "(if bytes st (cursor st + 1) (cursor st + 1 + 3) = ''lt;''
                \<or> bytes st (cursor st + 1) (cursor st + 1 + 3) = ''gt;'' then 4
             else if bytes st (cursor st + 1) (cursor st + 1 + 4) = ''amp;'' then 5 else 1) = (5::nat)"
    using bs by (simp add: f bytes_def)
  have "step st = Some (Continue (st\<lparr>cursor := cursor st + 5, textsize := textsize st + 1\<rparr>))"
    using C7_entity_reference [of st] f bs unfolding k by (simp add: distance_def)
  then have "step st = Some (Continue (st\<lparr>cursor := 8, textsize := 1\<rparr>))"
    by (simp add: f)
  with st f show ?thesis by blast
qed

section \<open>The contract of \<^verbatim>\<open>refillBuffer\<close>\<close>

lemma eof_window:
  \<open>map_option window (boundary 1 (initial 8 [Data ''ab''])) = Some ''ab''\<close>
  by (simp add: scanner_defs)

lemma eof_result:
  \<open>map_option fst (Option.bind (boundary 1 (initial 8 [Data ''ab''])) refillBuffer) = Some 0\<close>
  by (simp add: scanner_defs)

lemma eof_window_after:
  \<open>map_option (window \<circ> snd) (Option.bind (boundary 1 (initial 8 [Data ''ab''])) refillBuffer)
     = Some []\<close>
  by (simp add: scanner_defs)

text \<open>
  C2 as stated fails at end of file. With the unconsumed bytes \<^verbatim>\<open>ab\<close> in the window
  and nothing left to read, \<^verbatim>\<open>refillBuffer\<close> returns 0 and the window is empty
  afterwards: the unconsumed bytes are not in it.
\<close>

theorem C2_eof_discards_window:
  \<open>map_option window (boundary 1 (initial 8 [Data ''ab''])) = Some ''ab''
   \<and> map_option fst (Option.bind (boundary 1 (initial 8 [Data ''ab''])) refillBuffer) = Some 0
   \<and> map_option (window \<circ> snd) (Option.bind (boundary 1 (initial 8 [Data ''ab''])) refillBuffer)
       = Some []\<close>
  by (intro conjI eof_window eof_result eof_window_after)

lemma refilled_window:
  "a \<le> b \<Longrightarrow>
   map (\<lambda>i. if b - a \<le> i \<and> i < b + length bs - a then bs ! (i - (b - a))
            else if i < b - a then f (a + i) else f i) [0..<b + length bs - a]
     = map f [a..<b] @ bs"
  by (rule nth_equalityI) (auto simp: nth_append)

lemma copied_window:
  "map (\<lambda>i. if i < b - a then f (a + i) else f i) [0..<b - a] = map f [a..<b]"
  by (rule nth_equalityI) auto

text \<open>
  C2, as the code has it. For a call with \<^verbatim>\<open>cursor <= cursorEnd\<close> inside the buffer:
  when the read delivers at least one byte, \<^verbatim>\<open>refillBuffer\<close> returns their number,
  the cursor is at the start of the buffer and the window holds the previously
  unconsumed bytes followed by the bytes read; when the read fails it returns -1 and the
  window holds the previously unconsumed bytes; it returns 0 exactly when the read
  returns no byte (end of file), and then \<^verbatim>\<open>cursor\<close> and \<^verbatim>\<open>cursorEnd\<close> are both
  \<^verbatim>\<open>buffer.cend()\<close>: the window is empty and the unconsumed bytes are dropped.
\<close>

theorem C2_refillBuffer:
  assumes "cursor st \<le> cursorEnd st" and "cursorEnd st \<le> bufsize st"
  shows "\<exists>n st'. refillBuffer st = Some (n, st') \<and>
     (case READ_retry (bufsize st - (cursorEnd st - cursor st)) (stdin st) of
        (Bytes bs, es) \<Rightarrow>
          n = int (length bs) \<and> stdin st' = es \<and>
          (if bs = [] then cursor st' = bufsize st \<and> cursorEnd st' = bufsize st \<and> window st' = []
           else cursor st' = 0 \<and> window st' = window st @ bs)
      | (other, es) \<Rightarrow> n = - 1 \<and> stdin st' = es \<and> cursor st' = 0 \<and> window st' = window st)"
proof (cases "READ_retry (bufsize st - (cursorEnd st - cursor st)) (stdin st)")
  case (Pair r es)
  show ?thesis
  proof (cases r)
    case (Bytes bs)
    show ?thesis
    proof (cases "bs = []")
      case True
      with Pair Bytes assms show ?thesis
        by (simp add: refillBuffer_def Let_def window_def bytes_def)
    next
      case False
      with Pair Bytes assms show ?thesis
        by (simp add: refillBuffer_def Let_def window_def bytes_def refilled_window
            del: upt_eq_Nil_conv)
    qed
  next
    case Interrupted
    with Pair assms show ?thesis
      by (simp add: refillBuffer_def Let_def window_def bytes_def copied_window)
  next
    case Failed
    with Pair assms show ?thesis
      by (simp add: refillBuffer_def Let_def window_def bytes_def copied_window)
  qed
qed

lemma two_reads_state:
  \<open>map_option (\<lambda>st. (cursor st, cursorEnd st, bufsize st, stdin st, window st))
     (boundary 1 (initial 8 [Data ''ab'', Data ''cd'']))
   = Some (0, 2, 8, [Data ''cd''], ''ab'')\<close>
  by (simp add: scanner_defs)

text \<open>
  C2 with \<^verbatim>\<open>ab\<close> unconsumed and \<^verbatim>\<open>cd\<close> delivered by the read.
\<close>

theorem C2_refillBuffer_witness:
  \<open>\<exists>st st'. boundary 1 (initial 8 [Data ''ab'', Data ''cd'']) = Some st \<and> window st = ''ab''
      \<and> refillBuffer st = Some (2, st') \<and> cursor st' = 0 \<and> window st' = ''abcd''\<close>
proof -
  from two_reads_state obtain st where
    st: \<open>boundary 1 (initial 8 [Data ''ab'', Data ''cd'']) = Some st\<close>
    and f: "cursor st = 0" "cursorEnd st = 2" "bufsize st = 8" "stdin st = [Data ''cd'']"
      "window st = ''ab''"
    by auto
  from C2_refillBuffer [of st] f obtain n st' where "refillBuffer st = Some (n, st')"
    and "n = 2 \<and> stdin st' = [] \<and> cursor st' = 0 \<and> window st' = ''abcd''"
    by auto
  with st f show ?thesis by blast
qed

section \<open>Inputs shorter than five bytes\<close>

lemma short_window_step:
  "distance (cursor st) (cursorEnd st) < 5 \<Longrightarrow> step st = refill_step st"
  by (simp add: step_def classify_def)

lemma make_report_bytes:
  "url st' = url st \<Longrightarrow> textsize st' = textsize st \<Longrightarrow> loc st' = loc st \<Longrightarrow>
   exprCount st' = exprCount st \<Longrightarrow> functionCount st' = functionCount st \<Longrightarrow>
   classCount st' = classCount st \<Longrightarrow> unitCount st' = unitCount st \<Longrightarrow>
   declCount st' = declCount st \<Longrightarrow> commentCount st' = commentCount st \<Longrightarrow>
   isArchive st' = isArchive st \<Longrightarrow>
   (make_report st')\<lparr>srcML_bytes := n\<rparr> = (make_report st)\<lparr>srcML_bytes := n\<rparr>"
  by (simp add: make_report_def files_def)

lemma short_scan:
  "stdin st = evs \<Longrightarrow> readable evs \<Longrightarrow> cursor st \<le> cursorEnd st \<Longrightarrow> cursorEnd st \<le> bufsize st \<Longrightarrow>
   5 \<le> bufsize st \<Longrightarrow> cursorEnd st - cursor st + length (delivered evs) < 5 \<Longrightarrow>
   \<not> inXMLComment st \<Longrightarrow> \<not> inCDATA st \<Longrightarrow>
   scan st = Some (Exit0 ((make_report st)\<lparr>srcML_bytes := totalBytes st + int (length (delivered evs))\<rparr>))"
proof (induction evs arbitrary: st)
  case Nil
  have d: "distance (cursor st) (cursorEnd st) < 5"
    using Nil.prems by (simp add: distance_def)
  have "step st = Some (Break (st\<lparr>buffer := (\<lambda>i. if i < cursorEnd st - cursor st
            then buffer st (cursor st + i) else buffer st i),
          stdin := [], cursor := bufsize st, cursorEnd := bufsize st\<rparr>))"
    using Nil.prems unfolding short_window_step [OF d]
    by (simp add: refill_step_def refill_and_count_def refillBuffer_def Let_def)
  then show ?case
    by (subst scan.simps) (simp add: make_report_def files_def)
next
  case (Cons e es)
  have d: "distance (cursor st) (cursorEnd st) < 5"
    using Cons.prems by (simp add: distance_def)
  show ?case
  proof (cases e)
    case Eio
    with Cons.prems show ?thesis by (simp add: readable_def)
  next
    case Eintr
    let ?st = "st\<lparr>stdin := es\<rparr>"
    have "refill_step st = refill_step ?st"
      using Cons.prems(1) Eintr
      by (simp add: refill_step_def refill_and_count_def refillBuffer_def Let_def
          split: prod.splits rd.splits cong: if_cong)
    then have "step st = step ?st"
      using d by (simp add: short_window_step distance_def step_def classify_def)
    then have "scan st = scan ?st"
      by (simp add: scan.simps [of st] scan.simps [of ?st])
    moreover have "scan ?st = Some (Exit0 ((make_report ?st)
        \<lparr>srcML_bytes := totalBytes ?st + int (length (delivered es))\<rparr>))"
      using Cons.prems Eintr by (intro Cons.IH) (simp_all add: readable_def)
    ultimately show ?thesis
      using Eintr by (simp add: make_report_def files_def)
  next
    case (Data bs)
    let ?u = "cursorEnd st - cursor st"
    let ?copied = "\<lambda>i. if i < ?u then buffer st (cursor st + i) else buffer st i"
    let ?st = "st\<lparr>buffer := (\<lambda>i. if ?u \<le> i \<and> i < ?u + length bs then bs ! (i - ?u) else ?copied i),
          cursor := 0, cursorEnd := ?u + length bs, stdin := es,
          totalBytes := totalBytes st + int (length bs)\<rparr>"
    have bs: "bs \<noteq> []" "length bs \<le> bufsize st - ?u" "0 < length bs"
      using Cons.prems Data by (auto simp: readable_def)
    have "step st = Some (Continue ?st)"
      using Cons.prems(1,3,4,7,8) Data bs unfolding short_window_step [OF d]
      by (simp add: refill_step_def refill_and_count_def refillBuffer_def Let_def)
         (cases bs, simp_all)
    then have "scan st = scan ?st"
      by (subst scan.simps) simp
    moreover have "scan ?st = Some (Exit0 ((make_report ?st)
        \<lparr>srcML_bytes := totalBytes ?st + int (length (delivered es))\<rparr>))"
      using Cons.prems Data bs by (intro Cons.IH) (simp_all add: readable_def)
    ultimately show ?thesis
      using Data by (simp add: make_report_def files_def)
  qed
qed

text \<open>
  C10. An input of fewer than five bytes, however the reads deliver it, never gives a
  window of five bytes: every iteration refills, until a read meets end of file, empties
  the window and the loop ends. The program exits 0, every row is 0 and srcML bytes is
  the length of the input. (The empty input is the event list \<open>[]\<close>.)
\<close>

theorem C10_short_input:
  assumes "readable evs" and "length (delivered evs) < 5"
  shows "main evs =
     Some (Exit0 \<lparr> title_url = [], srcML_bytes = int (length (delivered evs)), Characters_row = 0,
                   Files = 0, LOC = 0, Classes = 0, Functions = 0, Declarations = 0,
                   Expressions = 0, Comments = 0 \<rparr>)"
proof -
  have "scan (initial BUFFER_SIZE evs) = Some (Exit0 ((make_report (initial BUFFER_SIZE evs))
      \<lparr>srcML_bytes := totalBytes (initial BUFFER_SIZE evs) + int (length (delivered evs))\<rparr>))"
    using assms by (intro short_scan) (simp_all add: initial_def BUFFER_SIZE_def)
  then show ?thesis
    by (simp add: main_def main_with_def make_report_def files_def initial_def)
qed

text \<open>C10 on the three bytes \<^verbatim>\<open><a>\<close>, delivered by two reads with an interrupt between.\<close>

theorem C10_short_input_witness:
  \<open>main [Data ''<a'', Eintr, Data ''>''] =
     Some (Exit0 \<lparr> title_url = [], srcML_bytes = 3, Characters_row = 0, Files = 0,
                   LOC = 0, Classes = 0, Functions = 0, Declarations = 0, Expressions = 0,
                   Comments = 0 \<rparr>)\<close>
  using C10_short_input [of \<open>[Data ''<a'', Eintr, Data ''>'']\<close>] by (simp add: readable_def)

section \<open>The window as a list\<close>

text \<open>
  The handlers read the buffer through iterators; the lemmas of this section state what
  they find in terms of the bytes of the window, for a window inside the buffer.
\<close>

lemma window_length: "length (window st) = cursorEnd st - cursor st"
  by (simp add: window_def bytes_def)

lemma window_nth: "i < cursorEnd st - cursor st \<Longrightarrow> window st ! i = buffer st (cursor st + i)"
  by (simp add: window_def bytes_def)

lemma deref_window:
  assumes "window st = w" and "cursorEnd st \<le> bufsize st" and "pos = cursor st + k"
    and "k < length w"
  shows "deref st pos = Some (w ! k)"
proof -
  have "k < cursorEnd st - cursor st" using assms(1,4) window_length [of st] by simp
  then show ?thesis
    using assms(2,3) window_nth [of k st] by (simp add: deref_def assms(1))
qed

lemma is_at_window:
  assumes "window st = w" and "cursorEnd st \<le> bufsize st" and "pos = cursor st + k"
    and "k < length w"
  shows "is_at st pos ch = Some (w ! k = ch)"
  using deref_window [OF assms] by (simp add: is_at_def)

lemma bytes_window:
  assumes "window st = w" and "p1 = cursor st + j" and "p2 = cursor st + k"
    and "j \<le> k" and "k \<le> length w"
  shows "bytes st p1 p2 = take (k - j) (drop j w)"
proof (rule nth_equalityI)
  have l: "length w = cursorEnd st - cursor st"
    using assms(1) window_length [of st] by simp
  show "length (bytes st p1 p2) = length (take (k - j) (drop j w))"
    using assms(2-5) by (simp add: bytes_def)
  fix i
  assume "i < length (bytes st p1 p2)"
  then have i: "i < k - j" using assms(2,3) by (simp add: bytes_def)
  then have "j + i < cursorEnd st - cursor st" using assms(5) l by simp
  then have "w ! (j + i) = buffer st (cursor st + (j + i))"
    using window_nth [of "j + i" st] by (simp add: assms(1))
  moreover have "bytes st p1 p2 ! i = buffer st (cursor st + j + i)"
    using i assms(2,3) by (simp add: bytes_def)
  ultimately show "bytes st p1 p2 ! i = take (k - j) (drop j w) ! i"
    using i assms(5) by (simp add: add.assoc)
qed

lemma std_find_if_window:
  assumes "window st = w" and "cursorEnd st \<le> bufsize st" and "pos = cursor st + k"
    and "drop k w = a @ y # r" and "\<forall>c\<in>set a. \<not> P c" and "P y"
  shows "std_find_if P st pos (cursorEnd st) = Some (pos + length a)"
proof -
  have k: "k < length w" using assms(4) by (cases "k < length w") simp_all
  then have le: "k \<le> cursorEnd st - cursor st" "cursor st \<le> cursorEnd st"
    using assms(1) window_length [of st] by simp_all
  have e: "cursorEnd st = cursor st + length w"
    using assms(1) window_length [of st] le by simp
  have "bytes st pos (cursorEnd st) = take (length w - k) (drop k w)"
    using k by (intro bytes_window [OF assms(1) assms(3) e]) simp_all
  moreover have "take (length w - k) (drop k w) = drop k w"
    by simp
  ultimately have b: "bytes st pos (cursorEnd st) = a @ y # r"
    using assms(4) by (simp only:)
  have "takeWhile (\<lambda>c. \<not> P c) (a @ y # r) = a"
    using assms(5,6) by (simp add: takeWhile_tail)
  moreover have "valid_range st pos (cursorEnd st)"
    using assms(2,3) le by (simp add: valid_range_def)
  ultimately show ?thesis
    by (simp add: std_find_if_def b)
qed



lemma not_name_chars:
  "\<not> tagNameMask (CHR ''='')" "\<not> tagNameMask (CHR '':'')" "\<not> tagNameMask (CHR ''!'')"
  "\<not> tagNameMask (CHR ''?'')" "\<not> tagNameMask (CHR ''/'')" "\<not> tagNameMask (CHR ''<'')"
  by (simp_all add: tagNameMask_def tagNameMask_literal_def)

lemma find_name_end_window:
  assumes "window st = w" and "cursorEnd st \<le> bufsize st" and "pos = cursor st + k"
    and "drop k w = a @ y # r" and "\<forall>c\<in>set a. tagNameMask c" and "\<not> tagNameMask y"
    and "(of_char y :: nat) < 128"
  shows "find_name_end st pos (cursorEnd st) = Some (pos + length a)"
proof -
  have f: "std_find_if_not tagNameMask st pos (cursorEnd st) = Some (pos + length a)"
    unfolding std_find_if_not_def
    using assms(5,6) by (intro std_find_if_window [OF assms(1-4)]) simp_all
  have k: "k + length a < length w"
    using arg_cong [OF assms(4), of length] by simp
  have "deref st (pos + length a) = Some (w ! (k + length a))"
    using k by (intro deref_window [OF assms(1,2)]) (simp_all add: assms(3))
  moreover have "w ! (k + length a) = drop k w ! length a"
    using k by simp
  then have "w ! (k + length a) = y"
    by (simp add: assms(4))
  ultimately have "buffer st (pos + length a) = y"
    by (simp add: deref_def split: if_splits)
  then show ?thesis
    using assms(7) by (simp add: find_name_end_def f)
qed

section \<open>The document URL\<close>




























lemma prefixed_url_run:
  "main [Data prefixed_url_tag] = Some (ExitError ''parser error : attribute p missing ='')"
  by (simp add: scanner_defs scan.simps prefixed_url_tag_def)








section \<open>Start tags and archives\<close>

text \<open>
  A refill keeps the bytes of the window and appends to them, so the start tag that was in
  the window before the handler made sure of its end is still there afterwards.
\<close>

lemma READ_retry_length: "READ_retry n es = (Bytes bs, es') \<Longrightarrow> length bs \<le> n"
  by (induction n es rule: READ_retry.induct) (auto split: if_splits)

lemma refillBuffer_shape:
  assumes "cursor st \<le> cursorEnd st" and "cursorEnd st \<le> bufsize st"
    and "refillBuffer st = Some (n, st')"
  shows "cursor st' \<le> cursorEnd st' \<and> cursorEnd st' \<le> bufsize st'
     \<and> (cursor st' = cursorEnd st' \<or> (\<exists>ext. window st' = window st @ ext))"
proof (cases "READ_retry (bufsize st - (cursorEnd st - cursor st)) (stdin st)")
  case (Pair r es)
  show ?thesis
  proof (cases r)
    case (Bytes bs)
    have l: "length bs \<le> bufsize st - (cursorEnd st - cursor st)"
      using Pair Bytes by (auto dest: READ_retry_length)
    show ?thesis
    proof (cases "bs = []")
      case True
      with Pair Bytes assms show ?thesis
        by (auto simp: refillBuffer_def Let_def)
    next
      case False
      with Pair Bytes assms l show ?thesis
        by (auto simp: refillBuffer_def Let_def window_def bytes_def refilled_window
            simp del: upt_eq_Nil_conv)
    qed
  next
    case Interrupted
    with Pair assms show ?thesis
      by (auto simp: refillBuffer_def Let_def window_def bytes_def copied_window)
  next
    case Failed
    with Pair assms show ?thesis
      by (auto simp: refillBuffer_def Let_def window_def bytes_def copied_window)
  qed
qed

lemma ensure_tag_end_window:
  assumes "cursor st \<le> cursorEnd st" and "cursorEnd st \<le> bufsize st"
    and "ensure_tag_end limit msg st = Some (Inr st0)"
  shows "(\<exists>ext. window st0 = window st @ ext) \<and> cursorEnd st0 \<le> bufsize st0
     \<and> ensure_tag_end limit msg st0 = Some (Inr st0)"
proof (cases "distance (cursor st) (cursorEnd st) < limit")
  case False
  with assms show ?thesis by (simp add: ensure_tag_end_def)
next
  case True
  from assms(3) True obtain tagEnd where
    f: "find_or_refill (std_find (CHR ''>'')) msg st = Some (Inr (st0, tagEnd))"
    by (auto simp: ensure_tag_end_def split: Option.bind_splits sum.splits)
  from f obtain t where t: "std_find (CHR ''>'') st (cursor st) (cursorEnd st) = Some t"
    by (auto simp: find_or_refill_def split: Option.bind_splits)
  show ?thesis
  proof (cases "t = cursorEnd st")
    case False
    with f t have "st0 = st" by (simp add: find_or_refill_def)
    with assms show ?thesis by simp
  next
    case same: True
    from f t same obtain st1 where
      r: "refill_and_count st = Some (Inr st1)"
      and l: "std_find (CHR ''>'') st1 (cursor st1) (cursorEnd st1) = Some tagEnd"
      and ne: "tagEnd \<noteq> cursorEnd st1" and eq: "st0 = st1"
      by (auto simp: find_or_refill_def split: Option.bind_splits sum.splits if_splits)
    from r obtain n st2 where
      b: "refillBuffer st = Some (n, st2)" and s1: "st1 = st2\<lparr>totalBytes := totalBytes st2 + n\<rparr>"
      by (auto simp: refill_and_count_def split: option.splits if_splits)
    from refillBuffer_shape [OF assms(1,2) b]
    have sh: "cursor st1 \<le> cursorEnd st1" "cursorEnd st1 \<le> bufsize st1"
      "cursor st1 = cursorEnd st1 \<or> (\<exists>ext. window st1 = window st @ ext)"
      by (simp_all add: s1 window_def bytes_def)
    have "cursor st1 \<noteq> cursorEnd st1"
    proof
      assume "cursor st1 = cursorEnd st1"
      with l sh(2) have "tagEnd = cursorEnd st1"
        by (simp add: std_find_def std_find_if_def valid_range_def bytes_def)
      with ne show False by simp
    qed
    with sh(3) have w: "\<exists>ext. window st1 = window st @ ext" by simp
    have "ensure_tag_end limit msg st1 = Some (Inr st1)"
      using l ne by (simp add: ensure_tag_end_def find_or_refill_def)
    with w sh(2) eq show ?thesis by simp
  qed
qed

lemma start_tag_counts:
  assumes w: "window s = CHR ''<'' # (if p = [] then [] else p @ '':'') @ n @ t # rest"
    and p: "\<forall>c\<in>set p. tagNameMask c" and n: "\<forall>c\<in>set n. tagNameMask c"
    and first: "p = [] \<longrightarrow> n \<noteq> [] \<and> t \<noteq> CHR '':''"
    and t: "\<not> tagNameMask t" "(of_char t :: nat) < 128"
    and inside: "cursorEnd s \<le> bufsize s"
    and ens: "ensure_tag_end 200 ''parser error: Incomplete element start tag'' s = Some (Inr s)"
    and run: "parse_start_tag s = Some (Continue s')"
  shows "isArchive s' = isArchive (count_element n s)
     \<and> unitCount s' = unitCount (count_element n s)"
proof (cases "p = []")
  case True
  define W where "W = CHR ''<'' # n @ t # rest"
  define ne where "ne = cursor s + 1 + length n"
  have win: "window s = W" using w True by (simp add: W_def)
  have nn: "n \<noteq> []" and tc: "t \<noteq> CHR '':''" using first True by simp_all
  have e: "cursorEnd s = cursor s + length W"
    using win window_length [of s] by (simp add: W_def)
  have d1: "drop 1 W = n @ t # rest" by (simp add: W_def)
  have "W ! 1 = hd n" using nn by (cases n) (simp_all add: W_def)
  moreover have "hd n \<noteq> CHR '':''" using n nn not_name_chars(2) by (cases n) auto
  ultimately have A1: "\<And>x. x = cursor s + 1 \<Longrightarrow> is_at s x (CHR '':'') = Some False"
    using is_at_window [OF win inside, of _ 1 "CHR '':''"] by (simp add: W_def)
  have A2: "\<And>x. x = cursor s + 1 \<Longrightarrow> find_name_end s x (cursorEnd s) = Some ne"
    using find_name_end_window [OF win inside _ d1 n t] by (simp add: ne_def)
  have A3: "ne \<noteq> cursorEnd s" by (simp add: e ne_def W_def)
  have "W ! (1 + length n) = t" by (simp add: W_def nth_append)
  then have A4: "is_at s ne (CHR '':'') = Some False"
    using is_at_window [OF win inside, of ne "1 + length n" "CHR '':''"] tc
    by (simp add: ne_def W_def)
  have A5: "\<And>x. x = cursor s + 1 \<Longrightarrow> bytes s x ne = n"
    using bytes_window [OF win, of _ 1 ne "1 + length n"] by (simp add: ne_def W_def)
  show ?thesis
    using run unfolding parse_start_tag_def
    by (auto simp: ens A1 A2 A3 A4 A5 nn Let_def split: Option.bind_splits if_splits)
next
  case False
  define W where "W = CHR ''<'' # p @ CHR '':'' # n @ t # rest"
  define ne where "ne = cursor s + 1 + length p"
  define ne2 where "ne2 = cursor s + 2 + length p + length n"
  have win: "window s = W" using w False by (simp add: W_def)
  have e: "cursorEnd s = cursor s + length W"
    using win window_length [of s] by (simp add: W_def)
  have d1: "drop 1 W = p @ CHR '':'' # n @ t # rest" by (simp add: W_def)
  have d2: "drop (2 + length p) W = n @ t # rest" by (simp add: W_def)
  have "W ! 1 = hd p" using False by (cases p) (simp_all add: W_def)
  moreover have "hd p \<noteq> CHR '':''" using p False not_name_chars(2) by (cases p) auto
  ultimately have B1: "\<And>x. x = cursor s + 1 \<Longrightarrow> is_at s x (CHR '':'') = Some False"
    using is_at_window [OF win inside, of _ 1 "CHR '':''"] by (simp add: W_def)
  have B2: "\<And>x. x = cursor s + 1 \<Longrightarrow> find_name_end s x (cursorEnd s) = Some ne"
    using find_name_end_window [OF win inside _ d1 p not_name_chars(2)] by (simp add: ne_def)
  have B3: "ne \<noteq> cursorEnd s" by (simp add: e ne_def W_def)
  have "W ! (1 + length p) = CHR '':''" by (simp add: W_def nth_append)
  then have B4: "is_at s ne (CHR '':'') = Some True"
    using is_at_window [OF win inside, of ne "1 + length p" "CHR '':''"]
    by (simp add: ne_def W_def)
  have B5: "\<And>x. x = cursor s + 1 \<Longrightarrow> ne - x = length p" by (simp add: ne_def)
  have B6: "find_name_end s (Suc ne) (cursorEnd s) = Some ne2"
    using find_name_end_window [OF win inside _ d2 n t, of "Suc ne"] by (simp add: ne_def ne2_def)
  have B7: "\<And>x. x = cursor s + 1 \<Longrightarrow> bytes s x ne2 = p @ CHR '':'' # n"
    using bytes_window [OF win, of _ 1 ne2 "2 + length p + length n"]
    by (simp add: ne2_def W_def)
  have B8: "\<And>x. x = cursor s + 1 + (length p + 1) \<Longrightarrow> bytes s x ne2 = n"
    using bytes_window [OF win, of _ "2 + length p" ne2 "2 + length p + length n"]
    by (simp add: ne2_def W_def)
  show ?thesis
    using run unfolding parse_start_tag_def
    by (auto simp: ens B1 B2 B3 B4 B5 B6 B7 B8 False Let_def split: Option.bind_splits if_splits)
qed

lemma find_name_end_takeWhile:
  assumes f: "find_name_end st pos (cursorEnd st) = Some e" and w: "window st = w"
    and pos: "pos = cursor st + k"
  shows "k \<le> length w \<and> e = pos + length (takeWhile tagNameMask (drop k w))
     \<and> bytes st pos (cursorEnd st) = drop k w"
proof -
  from f have v: "pos \<le> cursorEnd st"
    and e: "e = pos + length (takeWhile tagNameMask (bytes st pos (cursorEnd st)))"
    by (auto simp: find_name_end_def std_find_if_not_def std_find_if_def valid_range_def
        split: option.splits if_splits)
  have l: "length w = cursorEnd st - cursor st"
    using w window_length [of st] by simp
  from v pos l have k: "k \<le> length w" by simp
  have ce: "cursorEnd st = cursor st + length w"
    using v pos l by simp
  have "bytes st pos (cursorEnd st) = take (length w - k) (drop k w)"
    using k by (intro bytes_window [OF w pos ce]) simp_all
  then have b: "bytes st pos (cursorEnd st) = drop k w" by simp
  from k e b show ?thesis by simp
qed

lemma start_tag_name_end:
  assumes ens: "ensure_tag_end 200 ''parser error: Incomplete element start tag'' s = Some (Inr s)"
    and run: "parse_start_tag s = Some (Continue s')"
  shows "\<exists>n0. find_name_end s (cursor s + 1) (cursorEnd s) = Some n0 \<and> n0 \<noteq> cursorEnd s
    \<and> is_at s (cursor s + 1) (CHR '':'') = Some False"
  using run unfolding parse_start_tag_def
  by (simp add: ens Let_def split: Option.bind_splits if_splits)

lemma start_tag_unit:
  assumes ens: "ensure_tag_end 200 ''parser error: Incomplete element start tag'' s = Some (Inr s)"
    and inside: "cursorEnd s \<le> bufsize s"
    and run: "parse_start_tag s = Some (Continue s')"
    and cnt: "unitCount s' = unitCount s + 1"
  shows "\<exists>p tl0. drop 1 (window s) = (if p = [] then [] else p @ '':'') @ ''unit'' @ tl0
      \<and> (\<forall>c\<in>set p. tagNameMask c) \<and> (tl0 = [] \<or> \<not> tagNameMask (hd tl0))"
proof -
  define w where "w = window s"
  define D where "D = drop 1 w"
  define a where "a = takeWhile tagNameMask D"
  define d where "d = dropWhile tagNameMask D"
  define ne where "ne = cursor s + 1 + length a"
  have win: "window s = w" by (simp add: w_def)
  have Dad: "D = a @ d" by (simp add: a_def d_def)
  from start_tag_name_end [OF ens run]
  obtain n0 where fn: "find_name_end s (cursor s + 1) (cursorEnd s) = Some n0"
    and n0: "n0 \<noteq> cursorEnd s"
    and c0: "is_at s (cursor s + 1) (CHR '':'') = Some False"
    by blast
  from find_name_end_takeWhile [OF fn win, of 1]
  have k1: "1 \<le> length w" and n0': "n0 = ne"
    by (simp_all add: ne_def a_def D_def)
  have ce: "cursorEnd s = cursor s + length w"
    using k1 window_length [of s] by (simp add: w_def)
  have "length D = length w - 1" by (simp add: D_def)
  moreover have "length D = length a + length d" by (simp add: Dad)
  ultimately have lw: "length w = 1 + length a + length d"
    using k1 by simp
  have dne: "d \<noteq> []"
    using n0 n0' ce lw by (auto simp: ne_def)
  have wn: "w ! (1 + length a) = hd d"
  proof -
    have "w ! (1 + length a) = D ! length a"
      using lw by (simp add: D_def)
    also have "\<dots> = hd d"
      using dne by (simp add: Dad nth_append hd_conv_nth)
    finally show ?thesis .
  qed
  have w1: "w ! 1 = hd D"
  proof -
    have "1 < length w" using lw dne by (cases d) simp_all
    then show ?thesis by (simp add: D_def hd_drop_conv_nth)
  qed
  have F1: "\<And>x. x = cursor s + 1 \<Longrightarrow> find_name_end s x (cursorEnd s) = Some ne"
    using fn n0' by simp
  have F2: "ne \<noteq> cursorEnd s" using n0 n0' by simp
  have F3: "is_at s ne (CHR '':'') = Some (hd d = CHR '':'')"
    using is_at_window [OF win inside, of ne "1 + length a" "CHR '':''"] lw wn dne
    by (simp add: ne_def)
  have F4: "\<And>x. x = cursor s + 1 \<Longrightarrow> bytes s x ne = a"
    using bytes_window [OF win, of _ 1 ne "1 + length a"] lw Dad
    by (simp add: ne_def D_def)
  have F0: "\<And>x. x = cursor s + 1 \<Longrightarrow> is_at s x (CHR '':'') = Some False"
    using c0 by simp
  have pa: "\<forall>c\<in>set a. tagNameMask c"
    by (auto simp: a_def dest: set_takeWhileD)
  have hd_d: "\<not> tagNameMask (hd d)"
    using dne hd_dropWhile [of tagNameMask D] by (simp add: d_def)
  show ?thesis
  proof (cases "hd d = CHR '':''")
    case False
    have "unitCount s' = unitCount (count_element a s)"
      using run unfolding parse_start_tag_def
      by (auto simp: ens F0 F1 F2 F3 F4 False Let_def split: Option.bind_splits if_splits)
    with cnt have "a = ''unit''"
      using count_element_frame [of a s] by (simp split: if_splits)
    then have "drop 1 (window s) = (if [] = ([] :: string) then [] else [] @ '':'') @ ''unit'' @ d
        \<and> (\<forall>c\<in>set ([] :: string). tagNameMask c) \<and> (d = [] \<or> \<not> tagNameMask (hd d))"
      using Dad hd_d by (simp add: D_def w_def)
    then show ?thesis by blast
  next
    case True
    define d' where "d' = tl d"
    define b where "b = takeWhile tagNameMask d'"
    define e where "e = dropWhile tagNameMask d'"
    define ne2 where "ne2 = Suc ne + length b"
    have dd: "d = CHR '':'' # d'" using dne True by (cases d) (simp_all add: d'_def)
    have ane: "a \<noteq> []"
    proof
      assume "a = []"
      then have "w ! 1 = CHR '':''" using w1 True by (simp add: Dad)
      moreover have "is_at s (cursor s + 1) (CHR '':'') = Some (w ! 1 = CHR '':'')"
        using k1 lw dne by (intro is_at_window [OF win inside]) simp_all
      ultimately show False using c0 by simp
    qed
    have dr: "drop (2 + length a) w = d'"
    proof -
      have "drop (2 + length a) w = drop (1 + length a) D"
        by (simp add: D_def)
      also have "\<dots> = d'" by (simp add: Dad dd)
      finally show ?thesis .
    qed
    have "\<exists>n2. find_name_end s (Suc ne) (cursorEnd s) = Some n2"
      using run unfolding parse_start_tag_def
      by (simp add: ens F0 F1 F2 F3 True Let_def split: Option.bind_splits if_splits)
    then obtain n2 where f2: "find_name_end s (Suc ne) (cursorEnd s) = Some n2" ..
    from find_name_end_takeWhile [OF f2 win, of "2 + length a"] dr
    have n2: "n2 = ne2"
      by (simp add: ne_def ne2_def b_def)
    have G1: "find_name_end s (Suc ne) (cursorEnd s) = Some ne2"
      using f2 n2 by simp
    have lb: "length b \<le> length d'"
      by (simp add: b_def length_takeWhile_le)
    have G2: "\<And>x. x = cursor s + 1 + (length a + 1) \<Longrightarrow> bytes s x ne2 = b"
    proof -
      fix x assume x: "x = cursor s + 1 + (length a + 1)"
      have "bytes s x ne2 = take (2 + length a + length b - (2 + length a)) (drop (2 + length a) w)"
        using lw lb dd x by (intro bytes_window [OF win]) (simp_all add: ne2_def ne_def)
      also have "\<dots> = b"
        unfolding dr by (simp add: b_def takeWhile_eq_take [symmetric])
      finally show "bytes s x ne2 = b" .
    qed
    have G3: "\<And>x. x = cursor s + 1 \<Longrightarrow> ne - x = length a" by (simp add: ne_def)
    have G4: "\<And>x. x = cursor s + 1 \<Longrightarrow> bytes s x ne2 \<noteq> []"
      using ane by (simp add: bytes_def ne2_def ne_def)
    have "unitCount s' = unitCount (count_element b s)"
      using run unfolding parse_start_tag_def
      by (auto simp: ens F0 F1 F2 F3 G1 G2 G3 G4 True ane Let_def
          split: Option.bind_splits if_splits)
    with cnt have bu: "b = ''unit''"
      using count_element_frame [of b s] by (simp split: if_splits)
    have "d' = b @ e" by (simp add: b_def e_def)
    then have "drop 1 (window s) = (if a = [] then [] else a @ '':'') @ ''unit'' @ e"
      using Dad dd bu ane by (simp add: D_def w_def)
    moreover have "e = [] \<or> \<not> tagNameMask (hd e)"
      using hd_dropWhile [of tagNameMask d'] by (auto simp: e_def)
    ultimately show ?thesis using pa by blast
  qed
qed

lemma start_tag_classify:
  assumes w: "window st = CHR ''<'' # x # tl0" and x: "tagNameMask x"
    and len: "5 \<le> length (window st)" and inside: "cursorEnd st \<le> bufsize st"
    and flags: "\<not> inTag st" "\<not> inXMLComment st" "\<not> inCDATA st"
  shows "classify st = Some StartTag"
proof -
  have "5 \<le> cursorEnd st - cursor st"
    using len by (simp add: window_length)
  then have d: "\<not> distance (cursor st) (cursorEnd st) < 5"
    by (simp add: distance_def)
  have x': "x \<noteq> CHR ''!''" "x \<noteq> CHR ''?''" "x \<noteq> CHR ''/''"
    using x not_name_chars by auto
  have a0: "\<And>ch. is_at st (cursor st) ch = Some (CHR ''<'' = ch)"
    using is_at_window [OF w inside, of "cursor st" 0] by simp
  have a1: "\<And>p ch. p = cursor st + 1 \<Longrightarrow> is_at st p ch = Some (x = ch)"
    using is_at_window [OF w inside, of _ 1] by simp
  show ?thesis
    using d flags x' by (simp add: classify_def Let_def a0 a1 and_also_def or_else_def)
qed

text \<open>
  C5, as the code has it. An iteration sets \<^verbatim>\<open>isArchive\<close> exactly when it handles a start
  tag whose local name is \<^verbatim>\<open>unit\<close> while \<^verbatim>\<open>depth\<close> is 1, whatever the outermost element
  is and whether or not the tag is self-closing: the test of line 526 comes before the
  handler looks for \<^verbatim>\<open>>\<close> or \<^verbatim>\<open>/>\<close>. The local name is read from the window: with the
  window holding \<^verbatim>\<open><\<close>, an optional prefix and colon, the local name \<open>n\<close> and a byte
  that ends the name, the iteration is handled as a start tag, \<^verbatim>\<open>unitCount\<close> grows by
  one exactly when \<open>n\<close> is \<^verbatim>\<open>unit\<close>, and \<^verbatim>\<open>isArchive\<close> is set exactly when moreover
  \<^verbatim>\<open>depth\<close> is 1. Conversely, where a start tag makes \<^verbatim>\<open>unitCount\<close> grow, the bytes
  after its \<^verbatim>\<open><\<close> (in the window as the handler has refilled it) are an optional
  prefix and colon and then \<^verbatim>\<open>unit\<close>, ended by a byte that is not a name character.
  No other iteration sets \<^verbatim>\<open>isArchive\<close>, and once set it stays set.
  Files is \<^verbatim>\<open>unitCount - 1\<close> when \<^verbatim>\<open>isArchive\<close> is true and \<^verbatim>\<open>unitCount\<close> otherwise.
\<close>

theorem C5_isArchive_rule:
  "(step st = Some (Continue st') \<longrightarrow>
      (isArchive st' \<longleftrightarrow>
         isArchive st
         \<or> classify st = Some StartTag \<and> unitCount st' = unitCount st + 1 \<and> depth st = 1))
   \<and> (window st = CHR ''<'' # (if p = [] then [] else p @ '':'') @ n @ t # rest
        \<and> (\<forall>c\<in>set p. tagNameMask c) \<and> (\<forall>c\<in>set n. tagNameMask c)
        \<and> (p = [] \<longrightarrow> n \<noteq> [] \<and> t \<noteq> CHR '':'')
        \<and> \<not> tagNameMask t \<and> (of_char t :: nat) < 128
        \<and> 5 \<le> length (window st) \<and> cursorEnd st \<le> bufsize st
        \<and> \<not> inTag st \<and> \<not> inXMLComment st \<and> \<not> inCDATA st
        \<and> step st = Some (Continue st')
      \<longrightarrow> classify st = Some StartTag
          \<and> unitCount st' = unitCount st + (if n = ''unit'' then 1 else 0)
          \<and> (isArchive st' \<longleftrightarrow> isArchive st \<or> n = ''unit'' \<and> depth st = 1))
   \<and> (step st = Some (Continue st') \<and> classify st = Some StartTag
        \<and> unitCount st' = unitCount st + 1
        \<and> cursor st \<le> cursorEnd st \<and> cursorEnd st \<le> bufsize st
      \<longrightarrow> (\<exists>ext pre post.
            drop 1 (window st @ ext) = (if pre = [] then [] else pre @ '':'') @ ''unit'' @ post
            \<and> (\<forall>c\<in>set pre. tagNameMask c) \<and> (post = [] \<or> \<not> tagNameMask (hd post))))
   \<and> unitCount (count_element name st) = unitCount st + (if name = ''unit'' then 1 else 0)
   \<and> (isArchive (count_element name st) \<longleftrightarrow> isArchive st \<or> name = ''unit'' \<and> depth st = 1)
   \<and> Files (make_report st) = (if isArchive st then unitCount st - 1 else unitCount st)"
proof -
  have U: "\<exists>ext pre post.
            drop 1 (window st @ ext) = (if pre = [] then [] else pre @ '':'') @ ''unit'' @ post
            \<and> (\<forall>c\<in>set pre. tagNameMask c) \<and> (post = [] \<or> \<not> tagNameMask (hd post))"
    if g: "step st = Some (Continue st') \<and> classify st = Some StartTag
        \<and> unitCount st' = unitCount st + 1
        \<and> cursor st \<le> cursorEnd st \<and> cursorEnd st \<le> bufsize st"
  proof -
    let ?msg = "''parser error: Incomplete element start tag''"
    from g have stp: "step st = Some (Continue st')" and cl: "classify st = Some StartTag"
      and cnt: "unitCount st' = unitCount st + 1"
      and le: "cursor st \<le> cursorEnd st" and inside: "cursorEnd st \<le> bufsize st"
      by blast+
    from stp cl have run: "parse_start_tag st = Some (Continue st')"
      by (simp add: step_def)
    from run obtain st0 where ens: "ensure_tag_end 200 ?msg st = Some (Inr st0)"
      by (auto simp: parse_start_tag_def split: Option.bind_splits sum.splits)
    from ensure_tag_end_window [OF le inside ens] obtain ext where
      w0: "window st0 = window st @ ext" and in0: "cursorEnd st0 \<le> bufsize st0"
      and ens0: "ensure_tag_end 200 ?msg st0 = Some (Inr st0)"
      by auto
    have run0: "parse_start_tag st0 = Some (Continue st')"
      using run by (simp add: parse_start_tag_def ens ens0)
    have cnt0: "unitCount st' = unitCount st0 + 1"
      using cnt ensure_tag_end_frame [OF ens] by simp
    from start_tag_unit [OF ens0 in0 run0 cnt0] obtain pre post where
      "drop 1 (window st0) = (if pre = [] then [] else pre @ '':'') @ ''unit'' @ post
        \<and> (\<forall>c\<in>set pre. tagNameMask c) \<and> (post = [] \<or> \<not> tagNameMask (hd post))"
      by blast
    then show ?thesis unfolding w0 by blast
  qed
  have A: "step st = Some (Continue st') \<longrightarrow>
      (isArchive st' \<longleftrightarrow>
         isArchive st
         \<or> classify st = Some StartTag \<and> unitCount st' = unitCount st + 1 \<and> depth st = 1)"
    using step_frame [of st st'] by simp
  have B: "classify st = Some StartTag
          \<and> unitCount st' = unitCount st + (if n = ''unit'' then 1 else 0)
          \<and> (isArchive st' \<longleftrightarrow> isArchive st \<or> n = ''unit'' \<and> depth st = 1)"
    if h: "window st = CHR ''<'' # (if p = [] then [] else p @ '':'') @ n @ t # rest
        \<and> (\<forall>c\<in>set p. tagNameMask c) \<and> (\<forall>c\<in>set n. tagNameMask c)
        \<and> (p = [] \<longrightarrow> n \<noteq> [] \<and> t \<noteq> CHR '':'')
        \<and> \<not> tagNameMask t \<and> (of_char t :: nat) < 128
        \<and> 5 \<le> length (window st) \<and> cursorEnd st \<le> bufsize st
        \<and> \<not> inTag st \<and> \<not> inXMLComment st \<and> \<not> inCDATA st
        \<and> step st = Some (Continue st')"
  proof -
    let ?msg = "''parser error: Incomplete element start tag''"
    obtain x tl0 where xm: "window st = CHR ''<'' # x # tl0" "tagNameMask x"
    proof (cases "p = []")
      case True
      with h obtain y ys where "n = y # ys" by (cases n) auto
      with h True that show ?thesis by auto
    next
      case False
      then obtain y ys where "p = y # ys" by (cases p) auto
      with h that show ?thesis by auto
    qed
    from h have len: "5 \<le> length (window st)" and inside: "cursorEnd st \<le> bufsize st"
      and flags: "\<not> inTag st" "\<not> inXMLComment st" "\<not> inCDATA st"
      by blast+
    have c: "classify st = Some StartTag"
      by (rule start_tag_classify [OF xm len inside flags])
    with h have run: "parse_start_tag st = Some (Continue st')"
      by (simp add: step_def)
    then obtain st0 where ens: "ensure_tag_end 200 ?msg st = Some (Inr st0)"
      by (auto simp: parse_start_tag_def split: Option.bind_splits sum.splits)
    have "cursor st \<le> cursorEnd st"
      using h window_length [of st] by simp
    from ensure_tag_end_window [OF this _ ens] h obtain ext where
      w0: "window st0 = window st @ ext" and in0: "cursorEnd st0 \<le> bufsize st0"
      and ens0: "ensure_tag_end 200 ?msg st0 = Some (Inr st0)"
      by auto
    have run0: "parse_start_tag st0 = Some (Continue st')"
      using run by (simp add: parse_start_tag_def ens ens0)
    have "window st0 = CHR ''<'' # (if p = [] then [] else p @ '':'') @ n @ t # (rest @ ext)"
      using w0 h by simp
    from start_tag_counts [OF this _ _ _ _ _ in0 ens0 run0] h
    have "isArchive st' = isArchive (count_element n st0)
      \<and> unitCount st' = unitCount (count_element n st0)"
      by simp
    then show ?thesis
      using c ensure_tag_end_frame [OF ens] count_element_frame [of n st0] by simp
  qed
  have C: "unitCount (count_element name st) = unitCount st + (if name = ''unit'' then 1 else 0)"
    and D: "isArchive (count_element name st) \<longleftrightarrow> isArchive st \<or> name = ''unit'' \<and> depth st = 1"
    using count_element_frame [of name st] by simp_all
  have E: "Files (make_report st) = (if isArchive st then unitCount st - 1 else unitCount st)"
    by (simp add: make_report_def files_def)
  from B have B': "window st = CHR ''<'' # (if p = [] then [] else p @ '':'') @ n @ t # rest
        \<and> (\<forall>c\<in>set p. tagNameMask c) \<and> (\<forall>c\<in>set n. tagNameMask c)
        \<and> (p = [] \<longrightarrow> n \<noteq> [] \<and> t \<noteq> CHR '':'')
        \<and> \<not> tagNameMask t \<and> (of_char t :: nat) < 128
        \<and> 5 \<le> length (window st) \<and> cursorEnd st \<le> bufsize st
        \<and> \<not> inTag st \<and> \<not> inXMLComment st \<and> \<not> inCDATA st
        \<and> step st = Some (Continue st')
      \<longrightarrow> classify st = Some StartTag
          \<and> unitCount st' = unitCount st + (if n = ''unit'' then 1 else 0)
          \<and> (isArchive st' \<longleftrightarrow> isArchive st \<or> n = ''unit'' \<and> depth st = 1)"
    by (rule impI)
  from U have U': "step st = Some (Continue st') \<and> classify st = Some StartTag
        \<and> unitCount st' = unitCount st + 1
        \<and> cursor st \<le> cursorEnd st \<and> cursorEnd st \<le> bufsize st
      \<longrightarrow> (\<exists>ext pre post.
            drop 1 (window st @ ext) = (if pre = [] then [] else pre @ '':'') @ ''unit'' @ post
            \<and> (\<forall>c\<in>set pre. tagNameMask c) \<and> (post = [] \<or> \<not> tagNameMask (hd post)))"
    by (rule impI)
  from A B' U' C D E show ?thesis
    by (intro conjI)
qed

lemma prefixed_unit_state:
  \<open>map_option (\<lambda>st. (isArchive st, depth st, unitCount st, window st,
        cursorEnd st \<le> bufsize st, inTag st, inXMLComment st, inCDATA st,
        map_option (\<lambda>r. case r of Continue st' \<Rightarrow> True | _ \<Rightarrow> False) (step st),
        cursor st \<le> cursorEnd st))
     (boundary 2 (initial BUFFER_SIZE [Data ''<a><cpp:unit/></a>'']))
   = Some (False, 1, 0, ''<cpp:unit/></a>'', True, False, False, False, Some True, True)\<close>
  by (simp add: scanner_defs boundary_numeral)

text \<open>
  The rule of C5 at the start tag \<^verbatim>\<open><cpp:unit/>\<close> of \<^verbatim>\<open><a><cpp:unit/></a>\<close>: the
  qualified name is not \<^verbatim>\<open>unit\<close>, the local name is, and the tag is counted.
\<close>

theorem C5_isArchive_rule_witness:
  \<open>\<exists>st st'. boundary 2 (initial BUFFER_SIZE [Data ''<a><cpp:unit/></a>'']) = Some st
      \<and> step st = Some (Continue st') \<and> \<not> isArchive st \<and> isArchive st'
      \<and> unitCount st' = unitCount st + 1
      \<and> (\<exists>ext pre post.
            drop 1 (window st @ ext) = (if pre = [] then [] else pre @ '':'') @ ''unit'' @ post
            \<and> (\<forall>c\<in>set pre. tagNameMask c) \<and> (post = [] \<or> \<not> tagNameMask (hd post)))\<close>
proof -
  from prefixed_unit_state obtain st r where
    st: \<open>boundary 2 (initial BUFFER_SIZE [Data ''<a><cpp:unit/></a>'']) = Some st\<close>
    and f: "\<not> isArchive st" "depth st = 1"
      "window st = CHR ''<'' # (if ''cpp'' = [] then [] else ''cpp'' @ '':'') @ ''unit'' @ CHR ''/'' # ''></a>''"
      "cursorEnd st \<le> bufsize st" "\<not> inTag st" "\<not> inXMLComment st" "\<not> inCDATA st"
      "cursor st \<le> cursorEnd st"
    and r: "step st = Some r" "(case r of Continue st' \<Rightarrow> True | _ \<Rightarrow> False)"
    by auto
  from r(2) obtain st' where r': "r = Continue st'"
    by (cases r) simp_all
  note rule = C5_isArchive_rule [of st st' "''cpp''" "''unit''" "CHR ''/''" "''></a>''"]
  have 1: "classify st = Some StartTag \<and> isArchive st' \<and> unitCount st' = unitCount st + 1"
    using rule f(1-7) r(1) r'
    by (simp add: tagNameMask_def tagNameMask_literal_def)
  from rule have "step st = Some (Continue st') \<and> classify st = Some StartTag
        \<and> unitCount st' = unitCount st + 1
        \<and> cursor st \<le> cursorEnd st \<and> cursorEnd st \<le> bufsize st
      \<longrightarrow> (\<exists>ext pre post.
            drop 1 (window st @ ext) = (if pre = [] then [] else pre @ '':'') @ ''unit'' @ post
            \<and> (\<forall>c\<in>set pre. tagNameMask c) \<and> (post = [] \<or> \<not> tagNameMask (hd post)))"
    by blast
  with 1 f(4,8) r(1) r' have 2: "\<exists>ext pre post.
            drop 1 (window st @ ext) = (if pre = [] then [] else pre @ '':'') @ ''unit'' @ post
            \<and> (\<forall>c\<in>set pre. tagNameMask c) \<and> (post = [] \<or> \<not> tagNameMask (hd post))"
    by blast
  from st r(1) r' f(1) 1 2 show ?thesis by blast
qed

end
